theory Spec2Isabelle
  imports Main
begin

section \<open>Python strings and dictionaries\<close>

text \<open>
  A string is the list of the bytes of its UTF-8 encoding, so that a character outside
  ASCII is two to four \<open>char\<close>s; the pictographs of the program's message literals are
  written that way. \<open>split\<close> and \<open>strip\<close> are those of Python on every such string;
  \<open>lower\<close> and \<open>title\<close> change the case of the letters A to Z and a to z and leave
  every other character as it is.
\<close>

definition ascii_uppercase :: string where
  "ascii_uppercase = ''ABCDEFGHIJKLMNOPQRSTUVWXYZ''"

definition ascii_lowercase :: string where
  "ascii_lowercase = ''abcdefghijklmnopqrstuvwxyz''"

definition digits :: string where
  "digits = ''0123456789''"

definition isupper :: "char \<Rightarrow> bool" where
  "isupper c = (c \<in> set ascii_uppercase)"

definition islower :: "char \<Rightarrow> bool" where
  "islower c = (c \<in> set ascii_lowercase)"

definition lower_char :: "char \<Rightarrow> char" where
  "lower_char c = (case map_of (zip ascii_uppercase ascii_lowercase) c of
                     Some l \<Rightarrow> l | None \<Rightarrow> c)"

definition upper_char :: "char \<Rightarrow> char" where
  "upper_char c = (case map_of (zip ascii_lowercase ascii_uppercase) c of
                     Some u \<Rightarrow> u | None \<Rightarrow> c)"

definition lower :: "string \<Rightarrow> string" where
  "lower s = map lower_char s"

text \<open>\<open>str.title\<close>: the first letter of every run of letters in upper case, the rest
  of the run in lower case; the flag says whether the previous character was a letter.\<close>

fun title_from :: "bool \<Rightarrow> string \<Rightarrow> string" where
  "title_from previous_is_cased [] = []"
| "title_from previous_is_cased (c # cs) =
     (if islower c then
        (if previous_is_cased then c else upper_char c) # title_from True cs
      else if isupper c then
        (if previous_is_cased then lower_char c else c) # title_from True cs
      else c # title_from False cs)"

definition title :: "string \<Rightarrow> string" where
  "title s = title_from False s"

text \<open>
  The characters for which \<open>str.isspace\<close> holds, the ones that \<open>str.strip\<close> removes,
  each in its UTF-8 encoding: U+0009 to U+000D, U+001C to U+0020, U+0085, U+00A0, U+1680,
  U+2000 to U+200A, U+2028, U+2029, U+202F, U+205F and U+3000.
\<close>

definition whitespace :: "string list" where
  "whitespace =
    [[CHR 0x09], [CHR 0x0A], [CHR 0x0B], [CHR 0x0C], [CHR 0x0D], [CHR 0x1C], [CHR 0x1D],
     [CHR 0x1E], [CHR 0x1F], [CHR 0x20], [CHR 0xC2, CHR 0x85], [CHR 0xC2, CHR 0xA0],
     [CHR 0xE1, CHR 0x9A, CHR 0x80], [CHR 0xE2, CHR 0x80, CHR 0x80],
     [CHR 0xE2, CHR 0x80, CHR 0x81], [CHR 0xE2, CHR 0x80, CHR 0x82],
     [CHR 0xE2, CHR 0x80, CHR 0x83], [CHR 0xE2, CHR 0x80, CHR 0x84],
     [CHR 0xE2, CHR 0x80, CHR 0x85], [CHR 0xE2, CHR 0x80, CHR 0x86],
     [CHR 0xE2, CHR 0x80, CHR 0x87], [CHR 0xE2, CHR 0x80, CHR 0x88],
     [CHR 0xE2, CHR 0x80, CHR 0x89], [CHR 0xE2, CHR 0x80, CHR 0x8A],
     [CHR 0xE2, CHR 0x80, CHR 0xA8], [CHR 0xE2, CHR 0x80, CHR 0xA9],
     [CHR 0xE2, CHR 0x80, CHR 0xAF], [CHR 0xE2, CHR 0x81, CHR 0x9F],
     [CHR 0xE3, CHR 0x80, CHR 0x80]]"

text \<open>Removing the leading characters that are in a table of encodings of one, two or
  three bytes.\<close>

function strip_leading :: "string list \<Rightarrow> string \<Rightarrow> string" where
  "strip_leading ws [] = []"
| "strip_leading ws (c # cs) =
     (if [c] \<in> set ws then strip_leading ws cs
      else if take 2 (c # cs) \<in> set ws then strip_leading ws (drop 1 cs)
      else if take 3 (c # cs) \<in> set ws then strip_leading ws (drop 2 cs)
      else c # cs)"
  by pat_completeness auto
termination
  by (relation "measure (\<lambda>(ws, s). length s)") auto

definition lstrip :: "string \<Rightarrow> string" where
  "lstrip s = strip_leading whitespace s"

text \<open>At the end of a string of UTF-8 an encoding of the table is a whole character, since
  its first byte is no continuation byte.\<close>

definition rstrip :: "string \<Rightarrow> string" where
  "rstrip s = rev (strip_leading (map rev whitespace) (rev s))"

definition strip :: "string \<Rightarrow> string" where
  "strip s = rstrip (lstrip s)"

text \<open>\<open>s.split(",")\<close>: the pieces between the commas, empty pieces kept; the result is
  never the empty list.\<close>

fun split_comma :: "string \<Rightarrow> string list" where
  "split_comma [] = [[]]"
| "split_comma (c # cs) =
     (if c = CHR '','' then [] # split_comma cs
      else (case split_comma cs of
              piece # pieces \<Rightarrow> (c # piece) # pieces
            | [] \<Rightarrow> [[c]]))"

definition replace_char :: "char \<Rightarrow> char \<Rightarrow> string \<Rightarrow> string" where
  "replace_char old new s = map (\<lambda>c. if c = old then new else c) s"

fun join :: "string \<Rightarrow> string list \<Rightarrow> string" where
  "join sep [] = []"
| "join sep [x] = x"
| "join sep (x # y # ys) = x @ sep @ join sep (y # ys)"

text \<open>A \<open>dict\<close> from strings to strings, in insertion order: assigning to a key that is
  present keeps its place, a new key goes to the end.\<close>

type_synonym dict = "(string \<times> string) list"

fun setitem :: "string \<Rightarrow> string \<Rightarrow> dict \<Rightarrow> dict" where
  "setitem k v [] = [(k, v)]"
| "setitem k v (p # ps) = (if fst p = k then (k, v) # ps else p # setitem k v ps)"

definition get :: "dict \<Rightarrow> string \<Rightarrow> string option" where
  "get d k = map_of d k"

definition get_default :: "dict \<Rightarrow> string \<Rightarrow> string \<Rightarrow> string" where
  "get_default d k dflt = (case map_of d k of Some v \<Rightarrow> v | None \<Rightarrow> dflt)"

definition contains :: "dict \<Rightarrow> string \<Rightarrow> bool" where
  "contains d k = (map_of d k \<noteq> None)"

text \<open>Truth value of the result of \<open>dict.get\<close>: \<open>None\<close> and the empty string are false.\<close>

definition truthy :: "string option \<Rightarrow> bool" where
  "truthy r = (case r of None \<Rightarrow> False | Some v \<Rightarrow> v \<noteq> [])"

definition newline :: string where
  "newline = [CHR 0x0A]"

definition apostrophe :: string where
  "apostrophe = [CHR 0x27]"

definition check_mark :: string where
  "check_mark = [CHR 0xE2, CHR 0x9C, CHR 0x85]"

definition cross_mark :: string where
  "cross_mark = [CHR 0xE2, CHR 0x9D, CHR 0x8C]"

definition warning_sign :: string where
  "warning_sign = [CHR 0xE2, CHR 0x9A, CHR 0xA0, CHR 0xEF, CHR 0xB8, CHR 0x8F]"

definition pointing_hand :: string where
  "pointing_hand = [CHR 0xF0, CHR 0x9F, CHR 0x91, CHR 0x89]"

section \<open>Session state, the database and the environment\<close>

text \<open>A row of the table \<open>location\<close>; \<open>created_date\<close> is a \<open>datetime\<close>.\<close>

record datetime =
  year :: nat
  month :: nat
  day :: nat
  hour :: nat
  minute :: nat
  second :: nat

record location =
  location_id :: string
  location_name :: string
  location_type :: string
  zone :: string
  aisle :: string
  site_code :: string
  created_by :: string
  created_date :: datetime

text \<open>The statements the program sends to the database, with their parameters.\<close>

datatype statement =
  Select_count_by_id string
| Select_count_by_lower_name string
| Insert_location location

datatype ui_event =
  St_error string
| St_warning string
| St_success string
| St_download "dict list"

record message =
  role :: string
  msg_text :: string

datatype exn =
  MySQLError string
| KeyError string

text \<open>
  One state for everything the script mutates: the five entries of
  \<open>st.session_state\<close>, the committed rows of the table, the rows inserted on the
  open connection and not yet committed, the statements executed so far, what was
  shown on the page, and the number of readings taken from the environment (every random
  number, database call and chat completion is one reading).
\<close>

record state =
  chat_history :: "message list"
  collected_data :: dict
  awaiting_fields :: "string list"
  approval_status :: "string option"
  created_locations :: "dict list"
  location_table :: "location list"
  uncommitted :: "location list"
  statements :: "statement list"
  screen :: "ui_event list"
  tick :: nat

text \<open>
  What the program cannot decide, indexed by the reading: the random numbers, whether a
  database call raises \<open>mysql.connector.Error\<close> (and with what text), the clock, and
  the answer of the chat endpoint (\<open>Inl\<close> the text of the exception it raised).
\<close>

record env =
  random_at :: "nat \<Rightarrow> nat"
  fault_at :: "nat \<Rightarrow> string option"
  now_at :: "nat \<Rightarrow> datetime"
  completion_at :: "nat \<Rightarrow> string \<Rightarrow> string + string"

definition required_fields :: "string list" where
  "required_fields = [''location_name'', ''location_type'', ''zone'', ''aisle'', ''site_code'']"

definition initial_state :: "location list \<Rightarrow> state" where
  "initial_state rows =
     \<lparr>chat_history = [], collected_data = [], awaiting_fields = [],
      approval_status = None, created_locations = [],
      location_table = rows, uncommitted = [], statements = [], screen = [], tick = 0\<rparr>"

definition advance :: "state \<Rightarrow> state" where
  "advance s = s\<lparr>tick := Suc (tick s)\<rparr>"

definition display :: "ui_event \<Rightarrow> state \<Rightarrow> state" where
  "display ev s = s\<lparr>screen := screen s @ [ev]\<rparr>"

subsection \<open>Computations that may raise\<close>

type_synonym 'a io = "state \<Rightarrow> (exn + 'a) \<times> state"

definition return :: "'a \<Rightarrow> 'a io" where
  "return a s = (Inr a, s)"

definition raise :: "exn \<Rightarrow> 'a io" where
  "raise x s = (Inl x, s)"

definition bind :: "'a io \<Rightarrow> ('a \<Rightarrow> 'b io) \<Rightarrow> 'b io" where
  "bind m f s = (case m s of (Inl x, s') \<Rightarrow> (Inl x, s') | (Inr a, s') \<Rightarrow> f a s')"

definition getitem :: "dict \<Rightarrow> string \<Rightarrow> string io" where
  "getitem d k = (case map_of d k of None \<Rightarrow> raise (KeyError k) | Some v \<Rightarrow> return v)"

text \<open>\<open>random.choices(population, k=k)\<close>: \<open>k\<close> draws with replacement, each an index
  below the length of the population.\<close>

fun choices :: "env \<Rightarrow> string \<Rightarrow> nat \<Rightarrow> state \<Rightarrow> string \<times> state" where
  "choices e population 0 s = ([], s)"
| "choices e population (Suc k) s =
     (let c = population ! (random_at e (tick s) mod length population);
          (cs, s') = choices e population k (advance s)
      in (c # cs, s'))"

text \<open>\<open>datetime.datetime.now()\<close>: the clock at the current reading.\<close>

definition datetime_now :: "env \<Rightarrow> state \<Rightarrow> datetime \<times> state" where
  "datetime_now e s = (now_at e (tick s), s)"

subsection \<open>The connector\<close>

text \<open>Every call of the connector takes one reading of \<open>fault_at\<close>: a fault raises
  \<open>mysql.connector.Error\<close> and the call has no other effect.\<close>

definition db_call :: "env \<Rightarrow> (state \<Rightarrow> 'a \<times> state) \<Rightarrow> 'a io" where
  "db_call e act s =
     (case fault_at e (tick s) of
        Some err \<Rightarrow> (Inl (MySQLError err), advance s)
      | None \<Rightarrow> (case act (advance s) of (a, s') \<Rightarrow> (Inr a, s')))"

definition connect :: "env \<Rightarrow> unit io" where
  "connect e = db_call e (\<lambda>s. ((), s\<lparr>uncommitted := []\<rparr>))"

definition cursor :: "env \<Rightarrow> unit io" where
  "cursor e = db_call e (\<lambda>s. ((), s))"

definition count_by_id :: "string \<Rightarrow> state \<Rightarrow> nat" where
  "count_by_id loc_id s =
     length (filter (\<lambda>r. location_id r = loc_id) (location_table s @ uncommitted s))"

definition count_by_lower_name :: "string \<Rightarrow> state \<Rightarrow> nat" where
  "count_by_lower_name name s =
     length (filter (\<lambda>r. lower (location_name r) = name) (location_table s @ uncommitted s))"

text \<open>\<open>cursor.execute\<close> of the three statements; a query leaves its one-row result in
  the cursor, which the model hands to \<open>fetchone\<close>.\<close>

definition execute :: "env \<Rightarrow> statement \<Rightarrow> nat io" where
  "execute e stmt =
     db_call e (\<lambda>s.
       let s' = s\<lparr>statements := statements s @ [stmt]\<rparr>
       in case stmt of
            Select_count_by_id loc_id \<Rightarrow> (count_by_id loc_id s, s')
          | Select_count_by_lower_name name \<Rightarrow> (count_by_lower_name name s, s')
          | Insert_location r \<Rightarrow> (0, s'\<lparr>uncommitted := uncommitted s @ [r]\<rparr>))"

definition fetchone :: "env \<Rightarrow> nat \<Rightarrow> nat io" where
  "fetchone e result = db_call e (\<lambda>s. (result, s))"

definition commit :: "env \<Rightarrow> unit io" where
  "commit e =
     db_call e (\<lambda>s. ((), s\<lparr>location_table := location_table s @ uncommitted s,
                              uncommitted := []\<rparr>))"

definition cursor_close :: "env \<Rightarrow> unit io" where
  "cursor_close e = db_call e (\<lambda>s. ((), s))"

definition conn_close :: "env \<Rightarrow> unit io" where
  "conn_close e = db_call e (\<lambda>s. ((), s\<lparr>uncommitted := []\<rparr>))"

section \<open>The identifier generator\<close>

text \<open>The \<open>try\<close> block of \<open>generate_location_id\<close>: the existence check of a candidate.\<close>

definition location_id_exists :: "env \<Rightarrow> string \<Rightarrow> nat io" where
  "location_id_exists e loc_id =
     bind (connect e) (\<lambda>conn.
     bind (cursor e) (\<lambda>cur.
     bind (execute e (Select_count_by_id loc_id)) (\<lambda>result.
     bind (fetchone e result) (\<lambda>exists.
     bind (cursor_close e) (\<lambda>_.
     bind (conn_close e) (\<lambda>_.
     return exists))))))"

definition draw_candidate :: "env \<Rightarrow> state \<Rightarrow> string \<times> state" where
  "draw_candidate e s =
     (let (letters, s1) = choices e ascii_uppercase 2 s;
          (numbers, s2) = choices e digits 3 s1
      in (letters @ numbers, s2))"

text \<open>One pass through the body of \<open>while True\<close>: it returns, or goes round again.\<close>

datatype attempt = Return string state | Again state | Propagate exn state

definition try_candidate :: "env \<Rightarrow> state \<Rightarrow> attempt" where
  "try_candidate e s =
     (let (loc_id, s2) = draw_candidate e s
      in case location_id_exists e loc_id s2 of
           (Inr exists, s3) \<Rightarrow> if exists = 0 then Return loc_id s3 else Again s3
         | (Inl (MySQLError err), s3) \<Rightarrow>
             Return loc_id
               (display (St_error (cross_mark @ '' Database error while generating ID: '' @ err)) s3)
         | (Inl x, s3) \<Rightarrow> Propagate x s3)"

partial_function (option) generate_location_id ::
    "env \<Rightarrow> state \<Rightarrow> ((exn + string) \<times> state) option" where
  "generate_location_id e s =
     (case try_candidate e s of
        Return loc_id s' \<Rightarrow> Some (Inr loc_id, s')
      | Again s' \<Rightarrow> generate_location_id e s'
      | Propagate x s' \<Rightarrow> Some (Inl x, s'))"

declare generate_location_id.simps [code]

section \<open>The persistence gateway\<close>

definition lift :: "(state \<Rightarrow> 'a \<times> state) \<Rightarrow> 'a io" where
  "lift act s = (case act s of (a, s') \<Rightarrow> (Inr a, s'))"

definition modify :: "(state \<Rightarrow> state) \<Rightarrow> unit io" where
  "modify f s = (Inr (), f s)"

definition digit :: "nat \<Rightarrow> char" where
  "digit n = digits ! (n mod 10)"

definition two_digits :: "nat \<Rightarrow> string" where
  "two_digits n = [digit (n div 10), digit n]"

definition four_digits :: "nat \<Rightarrow> string" where
  "four_digits n = [digit (n div 1000), digit (n div 100), digit (n div 10), digit n]"

text \<open>\<open>strftime("%Y-%m-%d %H:%M:%S")\<close>, for a year of four digits.\<close>

definition strftime :: "datetime \<Rightarrow> string" where
  "strftime d =
     four_digits (year d) @ ''-'' @ two_digits (month d) @ ''-'' @ two_digits (day d) @ '' '' @
     two_digits (hour d) @ '':'' @ two_digits (minute d) @ '':'' @ two_digits (second d)"

definition duplicate_warning :: string where
  "duplicate_warning =
     warning_sign @ '' A location with a similar name already exists, but will still insert.''"

definition success_prefix :: string where
  "success_prefix = check_mark @ '' Location added to database successfully! Location ID: ''"

definition failure_prefix :: string where
  "failure_prefix = cross_mark @ '' Database Error: ''"

text \<open>The \<open>try\<close> block of \<open>save_to_mysql\<close>, statement by statement.\<close>

definition save_block :: "env \<Rightarrow> dict \<Rightarrow> string io" where
  "save_block e data =
     bind (connect e) (\<lambda>conn.
     bind (cursor e) (\<lambda>cur.
     bind (getitem data ''location_name'') (\<lambda>name.
     let location_name_clean = strip name;
         created_by = get_default data ''created_by'' ''AI''
     in
     bind (lift (datetime_now e)) (\<lambda>created_date.
     bind (execute e (Select_count_by_lower_name (lower location_name_clean))) (\<lambda>result.
     bind (fetchone e result) (\<lambda>found.
     bind (if found > 0 then modify (display (St_warning duplicate_warning)) else return ()) (\<lambda>_.
     bind (getitem data ''location_id'') (\<lambda>loc_id.
     bind (getitem data ''location_type'') (\<lambda>ltype.
     bind (getitem data ''zone'') (\<lambda>zn.
     bind (getitem data ''aisle'') (\<lambda>ais.
     bind (getitem data ''site_code'') (\<lambda>site.
     bind (execute e (Insert_location
             \<lparr>location_id = loc_id, location_name = location_name_clean,
              location_type = strip ltype, zone = strip zn, aisle = strip ais,
              site_code = strip site, created_by = created_by,
              created_date = created_date\<rparr>)) (\<lambda>_.
     bind (commit e) (\<lambda>_.
     bind (cursor_close e) (\<lambda>_.
     bind (conn_close e) (\<lambda>_.
     bind (modify (\<lambda>s. s\<lparr>created_locations := created_locations s @
             [[(''location_id'', loc_id), (''location_name'', location_name_clean),
               (''location_type'', strip ltype), (''zone'', strip zn),
               (''aisle'', strip ais), (''site_code'', strip site),
               (''created_by'', created_by),
               (''created_date'', strftime created_date)]]\<rparr>)) (\<lambda>_.
     return (success_prefix @ loc_id))))))))))))))))))"

definition save_to_mysql :: "env \<Rightarrow> dict \<Rightarrow> string io" where
  "save_to_mysql e data s =
     (case save_block e data s of
        (Inl (MySQLError err), s') \<Rightarrow> (Inr (failure_prefix @ err), s')
      | r \<Rightarrow> r)"

section \<open>The language-model fallback\<close>

definition ai_response :: "env \<Rightarrow> string \<Rightarrow> state \<Rightarrow> string \<times> state" where
  "ai_response e prompt s =
     (case completion_at e (tick s) prompt of
        Inr content \<Rightarrow> (strip content, advance s)
      | Inl err \<Rightarrow> (''Error: '' @ err, advance s))"

section \<open>The conversation state machine\<close>

definition missing_fields :: "state \<Rightarrow> string list" where
  "missing_fields s = filter (\<lambda>field. \<not> truthy (get (collected_data s) field)) required_fields"

text \<open>The loop over \<open>enumerate(awaiting_fields)\<close>.\<close>

fun assign_values :: "string list \<Rightarrow> (nat \<times> string) list \<Rightarrow> dict \<Rightarrow> dict" where
  "assign_values vals [] d = d"
| "assign_values vals ((i, field) # rest) d =
     assign_values vals rest (if i < length vals then setitem field (vals ! i) d else d)"

definition collect_values :: "string \<Rightarrow> state \<Rightarrow> state" where
  "collect_values user_input s =
     (let vals = map strip (split_comma user_input)
      in s\<lparr>collected_data := assign_values vals (enumerate 0 (awaiting_fields s)) (collected_data s),
            awaiting_fields := []\<rparr>)"

definition missing_prompt :: "string list \<Rightarrow> string" where
  "missing_prompt missing =
     (let fields_str = join '', '' (map (replace_char CHR ''_'' CHR '' '') missing)
      in ''I still need the following details: **'' @ fields_str @ ''**.'' @ newline @ newline @
         pointing_hand @ '' Please provide them in one message, separated by commas, '' @
         ''in this order:'' @ newline @ ''`'' @ join '', '' missing @ ''`'')"

definition review_prompt :: "dict \<Rightarrow> string" where
  "review_prompt d =
     (let collected_str =
            join newline (map (\<lambda>(k, v). ''- **'' @ title (replace_char CHR ''_'' CHR '' '' k) @
                                          ''**: '' @ v) d)
      in ''Here are the details you provided:'' @ newline @ newline @ collected_str @
         newline @ newline @ check_mark @
         '' Do you want me to create this location in the system? (yes/no)'')"

definition cancelled_reply :: string where
  "cancelled_reply = cross_mark @ '' Location creation cancelled.''"

definition confirm_reply :: string where
  "confirm_reply = ''Please type '' @ apostrophe @ ''yes'' @ apostrophe @ '' or '' @
                   apostrophe @ ''no'' @ apostrophe @ '' to confirm.''"

text \<open>The branch on \<open>approval_status\<close>; its value is \<open>bot_reply\<close>.\<close>

definition approval_step :: "env \<Rightarrow> string \<Rightarrow> string io" where
  "approval_step e user_input s =
     (if approval_status s = None then
        (Inr (review_prompt (collected_data s)), s\<lparr>approval_status := Some ''pending''\<rparr>)
      else if approval_status s = Some ''pending'' then
        (if lower user_input \<in> set [''yes'', ''y''] then
           (let s1 = (if \<not> contains (collected_data s) ''created_by''
                      then s\<lparr>collected_data := setitem ''created_by'' ''AI'' (collected_data s)\<rparr>
                      else s)
            in case save_to_mysql e (collected_data s1) s1 of
                 (Inl x, s2) \<Rightarrow> (Inl x, s2)
               | (Inr result_msg, s2) \<Rightarrow> (Inr result_msg, s2\<lparr>approval_status := Some ''approved''\<rparr>))
         else if lower user_input \<in> set [''no'', ''n''] then
           (Inr cancelled_reply, s\<lparr>approval_status := Some ''cancelled''\<rparr>)
         else (Inr confirm_reply, s))
      else lift (ai_response e user_input) s)"

text \<open>The \<open>else\<close> branch of \<open>if missing\<close>: assign an identifier when there is none, then
  the approval step.\<close>

definition complete_step :: "env \<Rightarrow> string \<Rightarrow> state \<Rightarrow> ((exn + string) \<times> state) option" where
  "complete_step e user_input s =
     (if \<not> contains (collected_data s) ''location_id'' then
        (case generate_location_id e s of
           None \<Rightarrow> None
         | Some (Inl x, s1) \<Rightarrow> Some (Inl x, s1)
         | Some (Inr loc_id, s1) \<Rightarrow>
             Some (approval_step e user_input
                     (s1\<lparr>collected_data := setitem ''location_id'' loc_id (collected_data s1)\<rparr>)))
      else Some (approval_step e user_input s))"

text \<open>The block under \<open>if user_input\<close>: one turn of the conversation. \<open>None\<close> is a turn
  that never ends, \<open>Inl\<close> an exception that leaves the script.\<close>

definition on_user_input :: "env \<Rightarrow> string \<Rightarrow> state \<Rightarrow> ((exn + unit) \<times> state) option" where
  "on_user_input e user_input s =
     (if user_input = [] then Some (Inr (), s)
      else
        let s1 = s\<lparr>chat_history := chat_history s @ [\<lparr>role = ''user'', msg_text = user_input\<rparr>]\<rparr>;
            s2 = (if awaiting_fields s1 \<noteq> [] then collect_values user_input s1 else s1);
            missing = missing_fields s2
        in case (if missing \<noteq> []
                 then Some (Inr (missing_prompt missing), s2\<lparr>awaiting_fields := missing\<rparr>)
                 else complete_step e user_input s2) of
             None \<Rightarrow> None
           | Some (Inl x, s3) \<Rightarrow> Some (Inl x, s3)
           | Some (Inr bot_reply, s3) \<Rightarrow>
               Some (Inr (), s3\<lparr>chat_history := chat_history s3 @
                                   [\<lparr>role = ''assistant'', msg_text = bot_reply\<rparr>]\<rparr>))"

section \<open>The bulk import path\<close>

text \<open>A row of the data frame maps a column name to the text \<open>str\<close> gives for the cell.\<close>

definition cell :: "dict \<Rightarrow> string \<Rightarrow> string" where
  "cell row col = strip (get_default row col [])"

definition row_data :: "string \<Rightarrow> dict \<Rightarrow> dict" where
  "row_data loc_id row =
     [(''location_id'', loc_id),
      (''location_name'', cell row ''location_name''),
      (''location_type'', cell row ''location_type''),
      (''zone'', cell row ''zone''),
      (''aisle'', cell row ''aisle''),
      (''site_code'', cell row ''site_code''),
      (''created_by'', ''CSV Upload'')]"

text \<open>The loop over \<open>df.iterrows()\<close>.\<close>

fun upload_rows :: "env \<Rightarrow> dict list \<Rightarrow> state \<Rightarrow> ((exn + unit) \<times> state) option" where
  "upload_rows e [] s = Some (Inr (), s)"
| "upload_rows e (row # rest) s =
     (case generate_location_id e s of
        None \<Rightarrow> None
      | Some (Inl x, s1) \<Rightarrow> Some (Inl x, s1)
      | Some (Inr loc_id, s1) \<Rightarrow>
          (case save_to_mysql e (row_data loc_id row) s1 of
             (Inl x, s2) \<Rightarrow> Some (Inl x, s2)
           | (Inr msg, s2) \<Rightarrow> upload_rows e rest (display (St_success msg) s2)))"

definition exn_text :: "exn \<Rightarrow> string" where
  "exn_text x = (case x of MySQLError err \<Rightarrow> err | KeyError k \<Rightarrow> apostrophe @ k @ apostrophe)"

text \<open>The block under \<open>if uploaded_file is not None\<close>, for a file already parsed.\<close>

definition uploaded_file :: "env \<Rightarrow> dict list \<Rightarrow> state \<Rightarrow> state option" where
  "uploaded_file e df s =
     (case upload_rows e df s of
        None \<Rightarrow> None
      | Some (Inl x, s') \<Rightarrow>
          Some (display (St_error (cross_mark @ '' Error processing uploaded file: '' @ exn_text x)) s')
      | Some (Inr _, s') \<Rightarrow>
          Some (if created_locations s' \<noteq> [] then display (St_download (created_locations s')) s'
                else s'))"

section \<open>Notions used by the properties\<close>

definition isdigit :: "char \<Rightarrow> bool" where
  "isdigit c = (c \<in> set digits)"

text \<open>The pattern \<open>[A-Z]{2}[0-9]{3}\<close>.\<close>

definition id_pattern :: "string \<Rightarrow> bool" where
  "id_pattern i = (length i = 5 \<and> list_all isupper (take 2 i) \<and> list_all isdigit (drop 2 i))"

text \<open>No database call raised between two states of a run.\<close>

definition fault_free :: "env \<Rightarrow> state \<Rightarrow> state \<Rightarrow> bool" where
  "fault_free e s s' = (\<forall>t \<in> {tick s..<tick s'}. fault_at e t = None)"

text \<open>The record has the identifier and the five required fields.\<close>

definition fully_populated :: "dict \<Rightarrow> bool" where
  "fully_populated data = list_all (contains data) (''location_id'' # required_fields)"

text \<open>The row that \<open>save_to_mysql\<close> builds from a fully populated record, and its
  snapshot for the export list.\<close>

definition stored_location :: "dict \<Rightarrow> datetime \<Rightarrow> location" where
  "stored_location data d =
     \<lparr>location_id = get_default data ''location_id'' [],
      location_name = strip (get_default data ''location_name'' []),
      location_type = strip (get_default data ''location_type'' []),
      zone = strip (get_default data ''zone'' []),
      aisle = strip (get_default data ''aisle'' []),
      site_code = strip (get_default data ''site_code'' []),
      created_by = get_default data ''created_by'' ''AI'',
      created_date = d\<rparr>"

definition snapshot :: "location \<Rightarrow> dict" where
  "snapshot r =
     [(''location_id'', location_id r), (''location_name'', location_name r),
      (''location_type'', location_type r), (''zone'', zone r), (''aisle'', aisle r),
      (''site_code'', site_code r), (''created_by'', created_by r),
      (''created_date'', strftime (created_date r))]"

text \<open>A row of the table has the name, up to the case of the letters.\<close>

definition name_taken :: "string \<Rightarrow> state \<Rightarrow> bool" where
  "name_taken name s = (\<exists>r \<in> set (location_table s). lower (location_name r) = lower name)"

text \<open>The rows of the \<open>INSERT\<close> statements executed so far.\<close>

definition inserts :: "state \<Rightarrow> location list" where
  "inserts s = concat (map (\<lambda>stmt. case stmt of Insert_location r \<Rightarrow> [r] | _ \<Rightarrow> []) (statements s))"

text \<open>What a call of the gateway leaves when one of its database calls raised.\<close>

definition save_failed :: "env \<Rightarrow> dict \<Rightarrow> state \<Rightarrow> (exn + string) \<times> state \<Rightarrow> bool" where
  "save_failed e data s out =
     (case out of (r, s') \<Rightarrow>
        (\<exists>err. r = Inl (MySQLError err) \<and> fault_at e (tick s' - 1) = Some err) \<and>
        chat_history s' = chat_history s \<and> collected_data s' = collected_data s \<and>
        awaiting_fields s' = awaiting_fields s \<and> approval_status s' = approval_status s \<and>
        created_locations s' = created_locations s \<and>
        tick s < tick s' \<and> tick s' \<le> tick s + 8 \<and>
        (inserts s' = inserts s \<and> location_table s' = location_table s \<or>
         inserts s' = inserts s @ [stored_location data (now_at e (tick s + 2))] \<and>
         (location_table s' = location_table s \<or>
          location_table s' = location_table s @ [stored_location data (now_at e (tick s + 2))])) \<and>
        (screen s' = screen s \<or> screen s' = screen s @ [St_warning duplicate_warning]))"

text \<open>The conversation entries of the session are the same in both states.\<close>

definition conversation_kept :: "state \<Rightarrow> state \<Rightarrow> bool" where
  "conversation_kept s s' =
     (chat_history s' = chat_history s \<and> collected_data s' = collected_data s \<and>
      awaiting_fields s' = awaiting_fields s \<and> approval_status s' = approval_status s)"

text \<open>No \<open>INSERT\<close> was executed, no row committed and no record added to the export
  list between the two states.\<close>

definition nothing_persisted :: "state \<Rightarrow> state \<Rightarrow> bool" where
  "nothing_persisted s s' =
     (inserts s' = inserts s \<and> location_table s' = location_table s \<and>
      created_locations s' = created_locations s)"

text \<open>The list of missing fields that a turn recomputes after its assignment step.\<close>

definition recomputed_missing :: "string \<Rightarrow> state \<Rightarrow> string list" where
  "recomputed_missing user_input s =
     missing_fields (if awaiting_fields s \<noteq> [] then collect_values user_input s else s)"

text \<open>The state after the assignment step of a turn, and the required fields having the
  same values in two states.\<close>

definition after_assignment :: "string \<Rightarrow> state \<Rightarrow> state" where
  "after_assignment user_input s =
     (if awaiting_fields s \<noteq> [] then collect_values user_input s else s)"

definition fields_kept :: "state \<Rightarrow> state \<Rightarrow> bool" where
  "fields_kept s s' =
     (\<forall>f \<in> set required_fields. get (collected_data s') f = get (collected_data s) f)"

text \<open>Successive turns of one session; an exception ends the run.\<close>

fun conversation :: "env \<Rightarrow> string list \<Rightarrow> state \<Rightarrow> ((exn + unit) \<times> state) option" where
  "conversation e [] s = Some (Inr (), s)"
| "conversation e (user_input # rest) s =
     (case on_user_input e user_input s of
        None \<Rightarrow> None
      | Some (Inl x, s') \<Rightarrow> Some (Inl x, s')
      | Some (Inr _, s') \<Rightarrow> conversation e rest s')"

text \<open>All five fields collected, an identifier assigned, nothing awaited, and the given
  approval status.\<close>

definition form_complete :: "string \<Rightarrow> state \<Rightarrow> bool" where
  "form_complete status s =
     (awaiting_fields s = [] \<and> missing_fields s = [] \<and>
      contains (collected_data s) ''location_id'' \<and> approval_status s = Some status)"

text \<open>The result messages shown by \<open>st.success\<close>, and the two kinds of result.\<close>

definition shown :: "state \<Rightarrow> string list" where
  "shown s = concat (map (\<lambda>ev. case ev of St_success m \<Rightarrow> [m] | _ \<Rightarrow> []) (screen s))"

definition succeeded :: "string \<Rightarrow> bool" where
  "succeeded m = (take (length success_prefix) m = success_prefix)"

definition failed :: "string \<Rightarrow> bool" where
  "failed m = (take (length failure_prefix) m = failure_prefix)"

text \<open>The state in which the loop over the rows goes on after the gateway has returned
  for a record: the result message has been shown.\<close>

definition after_save :: "env \<Rightarrow> dict \<Rightarrow> state \<Rightarrow> state" where
  "after_save e data s =
     (case save_to_mysql e data s of
        (Inr msg, s') \<Rightarrow> display (St_success msg) s'
      | (Inl x, s') \<Rightarrow> s')"

text \<open>
  For every row in turn, whether one of the eight database calls of its persistence
  raises, provided the generator returns an identifier for every row (\<open>None\<close>
  otherwise). Each row starts in the state that the row before it has left.
\<close>

fun row_faults :: "env \<Rightarrow> dict list \<Rightarrow> state \<Rightarrow> bool list option" where
  "row_faults e [] s = Some []"
| "row_faults e (row # rest) s =
     (case generate_location_id e s of
        None \<Rightarrow> None
      | Some (Inl x, s1) \<Rightarrow> None
      | Some (Inr loc_id, s1) \<Rightarrow>
          map_option (Cons (\<not> fault_free e s1 (s1\<lparr>tick := tick s1 + 8\<rparr>)))
            (row_faults e rest (after_save e (row_data loc_id row) s1)))"

subsection \<open>Concrete inputs\<close>

text \<open>The character U+00A0, a white space outside ASCII.\<close>

definition no_break_space :: string where
  "no_break_space = [CHR 0xC2, CHR 0xA0]"

definition example_time :: datetime where
  "example_time = \<lparr>year = 2024, month = 5, day = 17, hour = 9, minute = 30, second = 0\<rparr>"

definition example_location :: "string \<Rightarrow> string \<Rightarrow> location" where
  "example_location loc_id name =
     \<lparr>location_id = loc_id, location_name = name, location_type = ''Shelf'', zone = ''A'',
      aisle = ''3'', site_code = ''SITE01'', created_by = ''AI'', created_date = example_time\<rparr>"

definition example_table :: "location list" where
  "example_table = [example_location ''AB234'' ''Bay 1'']"

text \<open>The random numbers are 0, 1, 2, ...; the faults are a parameter.\<close>

definition example_env :: "(nat \<Rightarrow> string option) \<Rightarrow> env" where
  "example_env faults =
     \<lparr>random_at = (\<lambda>t. t), fault_at = faults, now_at = (\<lambda>t. example_time),
      completion_at = (\<lambda>t prompt. Inr '' How else can I help? '')\<rparr>"

text \<open>One database call, the one of reading \<open>n\<close>, raises.\<close>

definition fault_once :: "nat \<Rightarrow> nat \<Rightarrow> string option" where
  "fault_once n t = (if t = n then Some ''Lost connection to MySQL server'' else None)"

definition example_record :: dict where
  "example_record =
     [(''location_name'', '' bay 1 ''), (''location_type'', ''Shelf''), (''zone'', ''A''),
      (''aisle'', ''3''), (''site_code'', ''SITE01''), (''location_id'', ''XY001'')]"

text \<open>A session that has all the details and waits for the answer to ``yes/no''.\<close>

definition example_pending :: state where
  "example_pending =
     (initial_state example_table)\<lparr>collected_data := example_record,
                                    approval_status := Some ''pending''\<rparr>"

text \<open>A session that has the name and the type and awaits the other three fields.\<close>

definition example_collecting :: state where
  "example_collecting =
     (initial_state example_table)
       \<lparr>collected_data := [(''location_name'', ''Bay 1''), (''location_type'', ''Shelf'')],
        awaiting_fields := [''zone'', ''aisle'', ''site_code'']\<rparr>"

text \<open>The last entry of the chat history is the assistant's reply.\<close>

definition replied :: "string \<Rightarrow> state \<Rightarrow> bool" where
  "replied reply s =
     (chat_history s \<noteq> [] \<and> last (chat_history s) = \<lparr>role = ''assistant'', msg_text = reply\<rparr>)"

text \<open>A session that was asked for all five fields.\<close>

definition example_awaiting_all :: state where
  "example_awaiting_all = (initial_state example_table)\<lparr>awaiting_fields := required_fields\<rparr>"

text \<open>Three rows of an uploaded file with the five columns; the last cell of the third
  row is empty in the file, which the data frame gives as \<open>nan\<close>.\<close>

definition example_rows :: "dict list" where
  "example_rows =
     [[(''location_name'', ''B1''), (''location_type'', ''S''), (''zone'', ''A''),
       (''aisle'', ''1''), (''site_code'', ''X'')],
      [(''location_name'', ''B2''), (''location_type'', ''S''), (''zone'', ''A''),
       (''aisle'', ''2''), (''site_code'', ''X'')],
      [(''location_name'', ''B3''), (''location_type'', ''R''), (''zone'', ''B''),
       (''aisle'', ''3''), (''site_code'', ''nan'')]]"

section \<open>Properties of the identifier generator\<close>

lemma choices_result:
  "population \<noteq> [] \<Longrightarrow> choices e population k s = (cs, s') \<Longrightarrow>
     length cs = k \<and> set cs \<subseteq> set population \<and> s' = s\<lparr>tick := tick s + k\<rparr>"
proof (induction k arbitrary: s cs s')
  case 0
  then show ?case by simp
next
  case (Suc k)
  obtain ds t where r: "choices e population k (advance s) = (ds, t)"
    by (cases "choices e population k (advance s)")
  from Suc.IH [OF Suc.prems(1) r] Suc.prems r show ?case
    by (auto simp: advance_def Let_def)
qed

lemma draw_candidate_result:
  assumes "draw_candidate e s = (i, s')"
  shows "id_pattern i \<and> s' = s\<lparr>tick := tick s + 5\<rparr>"
proof -
  obtain ls s1 where l: "choices e ascii_uppercase 2 s = (ls, s1)"
    by (cases "choices e ascii_uppercase 2 s")
  obtain ns s2 where n: "choices e digits 3 s1 = (ns, s2)"
    by (cases "choices e digits 3 s1")
  have a: "length ls = 2 \<and> set ls \<subseteq> set ascii_uppercase \<and> s1 = s\<lparr>tick := tick s + 2\<rparr>"
    using choices_result [OF _ l] by (simp add: ascii_uppercase_def)
  have b: "length ns = 3 \<and> set ns \<subseteq> set digits \<and> s2 = s1\<lparr>tick := tick s1 + 3\<rparr>"
    using choices_result [OF _ n] by (simp add: digits_def)
  have i: "i = ls @ ns" and s': "s' = s2"
    using assms l n by (simp_all add: draw_candidate_def)
  have "id_pattern (ls @ ns)"
    using a b by (auto simp: id_pattern_def isupper_def isdigit_def list_all_iff)
  with i s' a b show ?thesis by simp
qed

lemma db_call_result:
  "db_call e act s = (r, s') \<Longrightarrow>
     (case r of
        Inl x \<Rightarrow> (\<exists>err. x = MySQLError err \<and> fault_at e (tick s) = Some err) \<and> s' = advance s
      | Inr a \<Rightarrow> fault_at e (tick s) = None \<and> act (advance s) = (a, s'))"
  by (auto simp: db_call_def split: option.splits prod.splits)


lemma location_id_exists_result:
  assumes "location_id_exists e i s = (r, s')"
  shows "chat_history s' = chat_history s \<and> collected_data s' = collected_data s \<and>
         awaiting_fields s' = awaiting_fields s \<and> approval_status s' = approval_status s \<and>
         created_locations s' = created_locations s \<and> location_table s' = location_table s \<and>
         screen s' = screen s \<and>
         (statements s' = statements s \<or> statements s' = statements s @ [Select_count_by_id i]) \<and>
         tick s < tick s' \<and>
         (case r of
            Inr n \<Rightarrow> n = length (filter (\<lambda>r. location_id r = i) (location_table s)) \<and>
                     (\<forall>t \<in> {tick s..<tick s'}. fault_at e t = None)
          | Inl x \<Rightarrow> (\<exists>err. x = MySQLError err \<and> fault_at e (tick s' - 1) = Some err))"
  using assms
  unfolding location_id_exists_def bind_def return_def connect_def cursor_def execute_def
    fetchone_def cursor_close_def conn_close_def db_call_def advance_def count_by_id_def
  by (auto split: option.splits simp: Let_def less_Suc_eq)

lemma location_id_exists_fault:
  assumes "location_id_exists e i s = (Inl x, s')"
  shows "\<exists>err. x = MySQLError err \<and> (\<exists>t \<in> {tick s..<tick s'}. fault_at e t = Some err)"
proof -
  from location_id_exists_result [OF assms]
  obtain err where x: "x = MySQLError err" and f: "fault_at e (tick s' - 1) = Some err"
    and lt: "tick s < tick s'"
    by auto
  from lt have "tick s' - 1 \<in> {tick s..<tick s'}" by auto
  with x f show ?thesis by blast
qed

lemma try_candidate_return:
  assumes "try_candidate e s = Return i s'"
  shows "id_pattern i \<and> location_table s' = location_table s \<and> tick s \<le> tick s' \<and>
         (fault_free e s s' \<longrightarrow> i \<notin> location_id ` set (location_table s))"
proof -
  obtain c s2 where d: "draw_candidate e s = (c, s2)"
    by (cases "draw_candidate e s")
  obtain r s3 where x: "location_id_exists e c s2 = (r, s3)"
    by (cases "location_id_exists e c s2")
  note dr = draw_candidate_result [OF d]
  note xr = location_id_exists_result [OF x]
  show ?thesis
  proof (cases r)
    case (Inr n)
    with assms d x have n: "n = 0" and i: "i = c" and s': "s' = s3"
      by (auto simp: try_candidate_def split: if_splits)
    from xr Inr n have "filter (\<lambda>r. location_id r = c) (location_table s2) = []"
      by simp
    then have "c \<notin> location_id ` set (location_table s2)"
      by (auto simp: filter_empty_conv)
    with dr xr i s' show ?thesis by simp
  next
    case (Inl y)
    from location_id_exists_fault [OF x [unfolded Inl]]
    obtain err t where y: "y = MySQLError err" and t: "t \<in> {tick s2..<tick s3}"
      and f: "fault_at e t = Some err"
      by blast
    from assms d x Inl y have i: "i = c"
      and s': "s' = display (St_error (cross_mark @ '' Database error while generating ID: '' @ err)) s3"
      by (simp_all add: try_candidate_def)
    from t dr s' have "t \<in> {tick s..<tick s'}" by (auto simp: display_def)
    with f have "\<not> fault_free e s s'" by (auto simp: fault_free_def)
    with dr xr i s' show ?thesis by (simp add: display_def)
  qed
qed

lemma try_candidate_again:
  assumes "try_candidate e s = Again s'"
  shows "location_table s' = location_table s \<and> tick s \<le> tick s'"
proof -
  obtain c s2 where d: "draw_candidate e s = (c, s2)"
    by (cases "draw_candidate e s")
  obtain r s3 where x: "location_id_exists e c s2 = (r, s3)"
    by (cases "location_id_exists e c s2")
  note dr = draw_candidate_result [OF d]
  note xr = location_id_exists_result [OF x]
  from assms d x have "s' = s3"
    by (auto simp: try_candidate_def split: sum.splits exn.splits if_splits)
  with dr xr show ?thesis by simp
qed

lemma try_candidate_no_propagate: "try_candidate e s \<noteq> Propagate x s'"
proof -
  obtain c s2 where d: "draw_candidate e s = (c, s2)"
    by (cases "draw_candidate e s")
  obtain r s3 where x: "location_id_exists e c s2 = (r, s3)"
    by (cases "location_id_exists e c s2")
  from location_id_exists_result [OF x] d x show ?thesis
    by (auto simp: try_candidate_def split: sum.splits exn.splits)
qed

lemma location_id_exists_raises:
  assumes "t \<in> {tick s..<tick s + 6}" and "fault_at e t \<noteq> None"
  shows "\<exists>err s'. location_id_exists e i s = (Inl (MySQLError err), s') \<and>
           screen s' = screen s \<and> tick s' \<le> tick s + 6"
proof -
  from assms(1) have "t = tick s \<or> t = Suc (tick s) \<or> t = Suc (Suc (tick s)) \<or>
      t = Suc (Suc (Suc (tick s))) \<or> t = Suc (Suc (Suc (Suc (tick s)))) \<or>
      t = Suc (Suc (Suc (Suc (Suc (tick s)))))"
    by auto
  with assms(2) show ?thesis
    unfolding location_id_exists_def bind_def return_def connect_def cursor_def execute_def
      fetchone_def cursor_close_def conn_close_def db_call_def advance_def count_by_id_def
    by (auto split: option.splits simp: Let_def)
qed

lemma example_first_attempt:
  "try_candidate (example_env (\<lambda>t. None)) (initial_state example_table) =
     Again ((initial_state example_table)
              \<lparr>statements := [Select_count_by_id ''AB234''], tick := 11\<rparr>)"
  by code_simp

lemma example_second_attempt:
  "try_candidate (example_env (\<lambda>t. None))
     ((initial_state example_table)\<lparr>statements := [Select_count_by_id ''AB234''], tick := 11\<rparr>) =
     Return ''LM345''
       ((initial_state example_table)
          \<lparr>statements := [Select_count_by_id ''AB234'', Select_count_by_id ''LM345''], tick := 22\<rparr>)"
  by code_simp

lemma example_generate:
  "generate_location_id (example_env (\<lambda>t. None)) (initial_state example_table) =
     Some (Inr ''LM345'',
           (initial_state example_table)
             \<lparr>statements := [Select_count_by_id ''AB234'', Select_count_by_id ''LM345''], tick := 22\<rparr>)"
  apply (subst generate_location_id.simps)
  apply (simp only: example_first_attempt attempt.case)
  apply (subst generate_location_id.simps)
  apply (simp only: example_second_attempt attempt.case)
  done

lemma example_draw:
  "draw_candidate (example_env (fault_once 7)) (initial_state example_table) =
     (''AB234'', (initial_state example_table)\<lparr>tick := 5\<rparr>)"
  by code_simp

lemma generate_location_id_returns:
  assumes "generate_location_id e s = Some (r, s')"
  shows "\<exists>loc_id. r = Inr loc_id \<and> id_pattern loc_id \<and>
           location_table s' = location_table s \<and>
           (fault_free e s s' \<longrightarrow> loc_id \<notin> location_id ` set (location_table s'))"
proof -
  let ?P = "\<lambda>(e::env) s y. case y of (r, s') \<Rightarrow>
          \<exists>loc_id. r = Inr loc_id \<and> id_pattern loc_id \<and>
            location_table s' = location_table s \<and> tick s \<le> tick s' \<and>
            (fault_free e s s' \<longrightarrow> loc_id \<notin> location_id ` set (location_table s))"
  have "?P e s (r, s')"
  proof (rule generate_location_id.raw_induct [where P = ?P, OF _ assms])
    fix gen e s y
    assume IH: "\<And>e s y. gen e s = Some y \<Longrightarrow> ?P e s y"
      and step: "(case try_candidate e s of
                    Return loc_id s' \<Rightarrow> Some (Inr loc_id, s')
                  | Again s' \<Rightarrow> gen e s'
                  | Propagate x s' \<Rightarrow> Some (Inl x, s')) = Some y"
    show "?P e s y"
    proof (cases "try_candidate e s")
      case (Return i s1)
      with step have "y = (Inr i, s1)" by simp
      with try_candidate_return [OF Return] show ?thesis by simp
    next
      case (Again s1)
      with step have g: "gen e s1 = Some y" by simp
      note a = try_candidate_again [OF Again]
      from IH [OF g] a show ?thesis
        by (auto simp: fault_free_def)
    next
      case (Propagate x s1)
      with try_candidate_no_propagate show ?thesis by blast
    qed
  qed
  then show ?thesis by auto
qed

text \<open>
  C1. Whatever the generator returns is an identifier of the pattern
  \<open>[A-Z]{2}[0-9]{3}\<close> (it never leaves by an exception); the table is the same at the
  end of the run as at its start and at every existence check in between; and when no
  database call of the run raised, the identifier is not the \<open>location_id\<close> of any row
  of the table.
\<close>

theorem generate_location_id_pattern_fresh:
  assumes "generate_location_id e s = Some (r, s')"
  shows "\<exists>loc_id. r = Inr loc_id \<and> id_pattern loc_id \<and>
           location_table s' = location_table s \<and>
           (fault_free e s s' \<longrightarrow> loc_id \<notin> location_id ` set (location_table s'))"
  using generate_location_id_returns [OF assms] .


text \<open>The first candidate of this run, AB234, is in the table; the second, LM345, is not.\<close>

theorem generate_location_id_pattern_fresh_witness:
  "generate_location_id (example_env (\<lambda>t. None)) (initial_state example_table) =
     Some (Inr ''LM345'',
           (initial_state example_table)
             \<lparr>statements := [Select_count_by_id ''AB234'', Select_count_by_id ''LM345''], tick := 22\<rparr>) \<and>
   id_pattern ''LM345'' \<and> ''LM345'' \<notin> location_id ` set example_table"
  using generate_location_id_pattern_fresh [OF example_generate] example_generate
  by (simp add: fault_free_def example_env_def initial_state_def)

text \<open>
  C2. When a database call of the existence check raises, in whatever pass of the loop
  (a pass that goes round again leaves the loop as it was at the new state), the
  generator returns the candidate drawn in that pass, reports the error on the page and
  draws no further candidate; and every run that ends returns an identifier, never an
  exception.
\<close>

theorem generate_location_id_fail_open:
  "(draw_candidate e s = (loc_id, s2) \<and> (\<exists>t \<in> {tick s2..<tick s2 + 6}. fault_at e t \<noteq> None) \<longrightarrow>
      (\<exists>err s'. generate_location_id e s = Some (Inr loc_id, s') \<and>
         screen s' = screen s @ [St_error (cross_mark @ '' Database error while generating ID: '' @ err)] \<and>
         tick s' \<le> tick s + 11)) \<and>
   (try_candidate e s = Again s1 \<longrightarrow> generate_location_id e s = generate_location_id e s1) \<and>
   (generate_location_id e s = Some (r, s') \<longrightarrow> (\<exists>i. r = Inr i))"
proof (intro conjI impI)
  assume a: "draw_candidate e s = (loc_id, s2) \<and> (\<exists>t \<in> {tick s2..<tick s2 + 6}. fault_at e t \<noteq> None)"
  then obtain t where t: "t \<in> {tick s2..<tick s2 + 6}" "fault_at e t \<noteq> None" by blast
  from location_id_exists_raises [OF t]
  obtain err s3 where x: "location_id_exists e loc_id s2 = (Inl (MySQLError err), s3)"
    and sc: "screen s3 = screen s2" and tk: "tick s3 \<le> tick s2 + 6"
    by blast
  from a have d: "draw_candidate e s = (loc_id, s2)" by simp
  let ?s' = "display (St_error (cross_mark @ '' Database error while generating ID: '' @ err)) s3"
  from d x have "try_candidate e s = Return loc_id ?s'"
    by (simp add: try_candidate_def)
  then have "generate_location_id e s = Some (Inr loc_id, ?s')"
    by (subst generate_location_id.simps) simp
  moreover from draw_candidate_result [OF d] sc tk
  have "screen ?s' = screen s @ [St_error (cross_mark @ '' Database error while generating ID: '' @ err)]"
    and "tick ?s' \<le> tick s + 11"
    by (simp_all add: display_def)
  ultimately show "\<exists>err s'. generate_location_id e s = Some (Inr loc_id, s') \<and>
         screen s' = screen s @ [St_error (cross_mark @ '' Database error while generating ID: '' @ err)] \<and>
         tick s' \<le> tick s + 11"
    by blast
next
  assume "try_candidate e s = Again s1"
  then show "generate_location_id e s = generate_location_id e s1"
    by (subst generate_location_id.simps) simp
next
  assume "generate_location_id e s = Some (r, s')"
  from generate_location_id_returns [OF this] show "\<exists>i. r = Inr i" by blast
qed

text \<open>The check of AB234 loses its connection: AB234 is returned, although it is in the
  table.\<close>

theorem generate_location_id_fail_open_witness:
  "(\<exists>err s'. generate_location_id (example_env (fault_once 7)) (initial_state example_table) =
       Some (Inr ''AB234'', s') \<and>
     screen s' = [St_error (cross_mark @ '' Database error while generating ID: '' @ err)] \<and>
     tick s' \<le> 11) \<and>
   ''AB234'' \<in> location_id ` set example_table"
proof -
  have f: "\<exists>t \<in> {tick ((initial_state example_table)\<lparr>tick := 5\<rparr>)..<
                  tick ((initial_state example_table)\<lparr>tick := 5\<rparr>) + 6}.
             fault_at (example_env (fault_once 7)) t \<noteq> None"
    by (rule bexI [of _ 7]) (simp_all add: example_env_def fault_once_def)
  have "''AB234'' \<in> location_id ` set example_table"
    by (simp add: example_table_def example_location_def)
  with generate_location_id_fail_open
         [of "example_env (fault_once 7)" "initial_state example_table" "''AB234''"
             "(initial_state example_table)\<lparr>tick := 5\<rparr>", THEN conjunct1, rule_format,
          OF conjI [OF example_draw f]]
  show ?thesis by (simp add: initial_state_def)
qed

section \<open>Properties of the persistence gateway\<close>

lemmas save_eval =
  save_block_def bind_def return_def raise_def lift_def modify_def getitem_def connect_def
  cursor_def execute_def fetchone_def commit_def cursor_close_def conn_close_def db_call_def
  advance_def datetime_now_def display_def Let_def

lemma fully_populatedD:
  assumes "fully_populated data"
  shows "\<exists>i n t z a c. map_of data ''location_id'' = Some i \<and> map_of data ''location_name'' = Some n \<and>
     map_of data ''location_type'' = Some t \<and> map_of data ''zone'' = Some z \<and>
     map_of data ''aisle'' = Some a \<and> map_of data ''site_code'' = Some c"
  using assms by (auto simp: fully_populated_def required_fields_def contains_def)

lemma save_block_ok:
  assumes k: "fully_populated data"
    and f: "\<forall>t \<in> {tick s..<tick s + 8}. fault_at e t = None"
  shows "save_block e data s =
     (Inr (success_prefix @ get_default data ''location_id'' []),
      s\<lparr>created_locations := created_locations s @ [snapshot (stored_location data (now_at e (tick s + 2)))],
        location_table := location_table s @ [stored_location data (now_at e (tick s + 2))],
        uncommitted := [],
        statements := statements s @
          [Select_count_by_lower_name (lower (strip (get_default data ''location_name'' []))),
           Insert_location (stored_location data (now_at e (tick s + 2)))],
        screen := screen s @ (if name_taken (strip (get_default data ''location_name'' [])) s
                              then [St_warning duplicate_warning] else []),
        tick := tick s + 8\<rparr>)"
proof -
  from fully_populatedD [OF k] obtain i n t z a c where
    m: "map_of data ''location_id'' = Some i" "map_of data ''location_name'' = Some n"
     "map_of data ''location_type'' = Some t" "map_of data ''zone'' = Some z"
     "map_of data ''aisle'' = Some a" "map_of data ''site_code'' = Some c"
    by blast
  from f have f':
    "fault_at e (tick s) = None" "fault_at e (Suc (tick s)) = None"
    "fault_at e (Suc (Suc (tick s))) = None" "fault_at e (Suc (Suc (Suc (tick s)))) = None"
    "fault_at e (Suc (Suc (Suc (Suc (tick s))))) = None"
    "fault_at e (Suc (Suc (Suc (Suc (Suc (tick s)))))) = None"
    "fault_at e (Suc (Suc (Suc (Suc (Suc (Suc (tick s))))))) = None"
    "fault_at e (Suc (Suc (Suc (Suc (Suc (Suc (Suc (tick s)))))))) = None"
    by auto
  have c: "(0 < count_by_lower_name (lower (strip n)) (s\<lparr>tick := Suc (Suc (Suc (tick s))), uncommitted := []\<rparr>))
            = name_taken (strip n) s" for n
    by (auto simp: count_by_lower_name_def name_taken_def filter_empty_conv)
  show ?thesis
    using m f' 
    by (simp add: save_eval get_default_def stored_location_def snapshot_def c
          count_by_lower_name_def name_taken_def filter_empty_conv)
qed


lemma first_fault:
  assumes "t \<in> {tick s..<tick s + 8}" and "fault_at e t \<noteq> None"
  shows "(fault_at e (tick s) \<noteq> None) \<or>
      (fault_at e (tick s) = None \<and> fault_at e (Suc (tick s)) \<noteq> None) \<or>
      (fault_at e (tick s) = None \<and> fault_at e (Suc (tick s)) = None \<and> fault_at e (Suc (Suc (tick s))) \<noteq> None) \<or>
      (fault_at e (tick s) = None \<and> fault_at e (Suc (tick s)) = None \<and> fault_at e (Suc (Suc (tick s))) = None \<and> fault_at e (Suc (Suc (Suc (tick s)))) \<noteq> None) \<or>
      (fault_at e (tick s) = None \<and> fault_at e (Suc (tick s)) = None \<and> fault_at e (Suc (Suc (tick s))) = None \<and> fault_at e (Suc (Suc (Suc (tick s)))) = None \<and> fault_at e (Suc (Suc (Suc (Suc (tick s))))) \<noteq> None) \<or>
      (fault_at e (tick s) = None \<and> fault_at e (Suc (tick s)) = None \<and> fault_at e (Suc (Suc (tick s))) = None \<and> fault_at e (Suc (Suc (Suc (tick s)))) = None \<and> fault_at e (Suc (Suc (Suc (Suc (tick s))))) = None \<and> fault_at e (Suc (Suc (Suc (Suc (Suc (tick s)))))) \<noteq> None) \<or>
      (fault_at e (tick s) = None \<and> fault_at e (Suc (tick s)) = None \<and> fault_at e (Suc (Suc (tick s))) = None \<and> fault_at e (Suc (Suc (Suc (tick s)))) = None \<and> fault_at e (Suc (Suc (Suc (Suc (tick s))))) = None \<and> fault_at e (Suc (Suc (Suc (Suc (Suc (tick s)))))) = None \<and> fault_at e (Suc (Suc (Suc (Suc (Suc (Suc (tick s))))))) \<noteq> None) \<or>
      (fault_at e (tick s) = None \<and> fault_at e (Suc (tick s)) = None \<and> fault_at e (Suc (Suc (tick s))) = None \<and> fault_at e (Suc (Suc (Suc (tick s)))) = None \<and> fault_at e (Suc (Suc (Suc (Suc (tick s))))) = None \<and> fault_at e (Suc (Suc (Suc (Suc (Suc (tick s)))))) = None \<and> fault_at e (Suc (Suc (Suc (Suc (Suc (Suc (tick s))))))) = None \<and> fault_at e (Suc (Suc (Suc (Suc (Suc (Suc (Suc (tick s)))))))) \<noteq> None)"
proof -
  from assms(1) have "t = tick s \<or> t = Suc (tick s) \<or> t = Suc (Suc (tick s)) \<or>
      t = Suc (Suc (Suc (tick s))) \<or> t = Suc (Suc (Suc (Suc (tick s)))) \<or>
      t = Suc (Suc (Suc (Suc (Suc (tick s))))) \<or> t = Suc (Suc (Suc (Suc (Suc (Suc (tick s)))))) \<or>
      t = Suc (Suc (Suc (Suc (Suc (Suc (Suc (tick s)))))))"
    by auto
  with assms(2) have "fault_at e (tick s) \<noteq> None \<or> fault_at e (Suc (tick s)) \<noteq> None \<or>
      fault_at e (Suc (Suc (tick s))) \<noteq> None \<or> fault_at e (Suc (Suc (Suc (tick s)))) \<noteq> None \<or>
      fault_at e (Suc (Suc (Suc (Suc (tick s))))) \<noteq> None \<or>
      fault_at e (Suc (Suc (Suc (Suc (Suc (tick s)))))) \<noteq> None \<or>
      fault_at e (Suc (Suc (Suc (Suc (Suc (Suc (tick s))))))) \<noteq> None \<or>
      fault_at e (Suc (Suc (Suc (Suc (Suc (Suc (Suc (tick s)))))))) \<noteq> None"
    by (elim disjE) simp_all
  then show ?thesis by argo
qed

lemma save_block_fault:
  assumes k: "fully_populated data"
    and t: "t \<in> {tick s..<tick s + 8}" and f: "fault_at e t \<noteq> None"
  shows "save_failed e data s (save_block e data s)"
proof -
  from fully_populatedD [OF k] obtain i n ty z a c where
    m: "map_of data ''location_id'' = Some i" "map_of data ''location_name'' = Some n"
     "map_of data ''location_type'' = Some ty" "map_of data ''zone'' = Some z"
     "map_of data ''aisle'' = Some a" "map_of data ''site_code'' = Some c"
    by blast
  note ev = save_eval save_failed_def inserts_def get_default_def stored_location_def
  from first_fault [OF t f] show ?thesis
  proof (elim disjE conjE)
    assume "fault_at e (tick s) \<noteq> None"
    with m show ?thesis by (auto simp: ev)
  next
    assume "fault_at e (tick s) = None"
      "fault_at e (Suc (tick s)) \<noteq> None"
    with m show ?thesis by (auto simp: ev)
  next
    assume "fault_at e (tick s) = None"
      "fault_at e (Suc (tick s)) = None"
      "fault_at e (Suc (Suc (tick s))) \<noteq> None"
    with m show ?thesis by (auto simp: ev)
  next
    assume "fault_at e (tick s) = None"
      "fault_at e (Suc (tick s)) = None"
      "fault_at e (Suc (Suc (tick s))) = None"
      "fault_at e (Suc (Suc (Suc (tick s)))) \<noteq> None"
    with m show ?thesis by (auto simp: ev)
  next
    assume "fault_at e (tick s) = None"
      "fault_at e (Suc (tick s)) = None"
      "fault_at e (Suc (Suc (tick s))) = None"
      "fault_at e (Suc (Suc (Suc (tick s)))) = None"
      "fault_at e (Suc (Suc (Suc (Suc (tick s))))) \<noteq> None"
    with m show ?thesis by (auto simp: ev)
  next
    assume "fault_at e (tick s) = None"
      "fault_at e (Suc (tick s)) = None"
      "fault_at e (Suc (Suc (tick s))) = None"
      "fault_at e (Suc (Suc (Suc (tick s)))) = None"
      "fault_at e (Suc (Suc (Suc (Suc (tick s))))) = None"
      "fault_at e (Suc (Suc (Suc (Suc (Suc (tick s)))))) \<noteq> None"
    with m show ?thesis by (auto simp: ev)
  next
    assume "fault_at e (tick s) = None"
      "fault_at e (Suc (tick s)) = None"
      "fault_at e (Suc (Suc (tick s))) = None"
      "fault_at e (Suc (Suc (Suc (tick s)))) = None"
      "fault_at e (Suc (Suc (Suc (Suc (tick s))))) = None"
      "fault_at e (Suc (Suc (Suc (Suc (Suc (tick s)))))) = None"
      "fault_at e (Suc (Suc (Suc (Suc (Suc (Suc (tick s))))))) \<noteq> None"
    with m show ?thesis by (auto simp: ev)
  next
    assume "fault_at e (tick s) = None"
      "fault_at e (Suc (tick s)) = None"
      "fault_at e (Suc (Suc (tick s))) = None"
      "fault_at e (Suc (Suc (Suc (tick s)))) = None"
      "fault_at e (Suc (Suc (Suc (Suc (tick s))))) = None"
      "fault_at e (Suc (Suc (Suc (Suc (Suc (tick s)))))) = None"
      "fault_at e (Suc (Suc (Suc (Suc (Suc (Suc (tick s))))))) = None"
      "fault_at e (Suc (Suc (Suc (Suc (Suc (Suc (Suc (tick s)))))))) \<noteq> None"
    with m show ?thesis by (auto simp: ev)
  qed
qed


lemma save_to_mysql_ok:
  assumes "fully_populated data" and "fault_free e s (s\<lparr>tick := tick s + 8\<rparr>)"
  shows "save_to_mysql e data s =
     (Inr (success_prefix @ get_default data ''location_id'' []),
      s\<lparr>created_locations := created_locations s @ [snapshot (stored_location data (now_at e (tick s + 2)))],
        location_table := location_table s @ [stored_location data (now_at e (tick s + 2))],
        uncommitted := [],
        statements := statements s @
          [Select_count_by_lower_name (lower (strip (get_default data ''location_name'' []))),
           Insert_location (stored_location data (now_at e (tick s + 2)))],
        screen := screen s @ (if name_taken (strip (get_default data ''location_name'' [])) s
                              then [St_warning duplicate_warning] else []),
        tick := tick s + 8\<rparr>)"
proof -
  from assms(2) have "\<forall>t \<in> {tick s..<tick s + 8}. fault_at e t = None"
    by (simp add: fault_free_def)
  from save_block_ok [OF assms(1) this] show ?thesis
    by (simp add: save_to_mysql_def)
qed

lemma save_to_mysql_fault:
  assumes k: "fully_populated data" and n: "\<not> fault_free e s (s\<lparr>tick := tick s + 8\<rparr>)"
  shows "\<exists>err s'. save_to_mysql e data s = (Inr (failure_prefix @ err), s') \<and>
           save_failed e data s (Inl (MySQLError err), s') \<and>
           (\<exists>t \<in> {tick s..<tick s + 8}. fault_at e t = Some err)"
proof -
  from n obtain t where t: "t \<in> {tick s..<tick s + 8}" and f: "fault_at e t \<noteq> None"
    by (auto simp: fault_free_def)
  obtain r s' where b: "save_block e data s = (r, s')"
    by (cases "save_block e data s")
  from save_block_fault [OF k t f] b have sf: "save_failed e data s (r, s')" by simp
  then obtain err where r: "r = Inl (MySQLError err)" and e: "fault_at e (tick s' - 1) = Some err"
    and lt: "tick s < tick s'" "tick s' \<le> tick s + 8"
    by (auto simp: save_failed_def)
  from lt have "tick s' - 1 \<in> {tick s..<tick s + 8}" by auto
  with e have "\<exists>t \<in> {tick s..<tick s + 8}. fault_at e t = Some err" by blast
  moreover from b r have "save_to_mysql e data s = (Inr (failure_prefix @ err), s')"
    by (simp add: save_to_mysql_def)
  ultimately show ?thesis using sf r by blast
qed

lemma example_record_populated: "fully_populated example_record"
  by (simp add: fully_populated_def example_record_def required_fields_def contains_def)

text \<open>
  C5. For a record that has the identifier and the five fields, the gateway returns a
  message and never an exception: the success message with the identifier when no
  database call raised, otherwise the failure message with the text of the error that
  was raised (by the connection, the duplicate check, the insert, the commit or a
  close).
\<close>

theorem save_to_mysql_returns_message:
  assumes "fully_populated data"
  shows "\<exists>msg s'. save_to_mysql e data s = (Inr msg, s') \<and>
           (if fault_free e s (s\<lparr>tick := tick s + 8\<rparr>)
            then msg = success_prefix @ get_default data ''location_id'' []
            else \<exists>err. msg = failure_prefix @ err \<and>
                   (\<exists>t \<in> {tick s..<tick s + 8}. fault_at e t = Some err))"
proof (cases "fault_free e s (s\<lparr>tick := tick s + 8\<rparr>)")
  case True
  from save_to_mysql_ok [OF assms True] True show ?thesis by simp
next
  case False
  from save_to_mysql_fault [OF assms False] False show ?thesis by auto
qed

text \<open>The commit of this call raises: the failure message comes back.\<close>

theorem save_to_mysql_returns_message_witness:
  "\<exists>s'. save_to_mysql (example_env (fault_once 5)) example_record (initial_state example_table) =
          (Inr (failure_prefix @ ''Lost connection to MySQL server''), s')"
proof -
  have n: "\<not> fault_free (example_env (fault_once 5)) (initial_state example_table)
               ((initial_state example_table)\<lparr>tick := tick (initial_state example_table) + 8\<rparr>)"
    by (simp add: fault_free_def example_env_def fault_once_def initial_state_def)
  from save_to_mysql_returns_message [OF example_record_populated,
         of "example_env (fault_once 5)" "initial_state example_table"] n
  show ?thesis
    by (auto simp: example_env_def fault_once_def split: if_splits)
qed

lemma save_block_any_table:
  assumes k: "fully_populated data"
  shows "fst (save_block e data (s\<lparr>location_table := rows\<rparr>)) = fst (save_block e data s) \<and>
         inserts (snd (save_block e data (s\<lparr>location_table := rows\<rparr>))) =
           inserts (snd (save_block e data s)) \<and>
         created_locations (snd (save_block e data (s\<lparr>location_table := rows\<rparr>))) =
           created_locations (snd (save_block e data s)) \<and>
         drop (length rows) (location_table (snd (save_block e data (s\<lparr>location_table := rows\<rparr>)))) =
           drop (length (location_table s)) (location_table (snd (save_block e data s)))"
proof (cases "\<forall>t \<in> {tick s..<tick s + 8}. fault_at e t = None")
  case True
  then have "\<forall>t \<in> {tick (s\<lparr>location_table := rows\<rparr>)..<tick (s\<lparr>location_table := rows\<rparr>) + 8}.
               fault_at e t = None"
    by simp
  from save_block_ok [OF k this] save_block_ok [OF k True] show ?thesis
    by (simp add: inserts_def)
next
  case False
  then obtain t where t: "t \<in> {tick s..<tick s + 8}" and f: "fault_at e t \<noteq> None"
    by blast
  from fully_populatedD [OF k] obtain i n ty z a c where
    m: "map_of data ''location_id'' = Some i" "map_of data ''location_name'' = Some n"
     "map_of data ''location_type'' = Some ty" "map_of data ''zone'' = Some z"
     "map_of data ''aisle'' = Some a" "map_of data ''site_code'' = Some c"
    by blast
  note ev = save_eval inserts_def
  from first_fault [OF t f] show ?thesis
  proof (elim disjE conjE)
    assume "fault_at e (tick s) \<noteq> None"
    with m show ?thesis by (auto simp: ev)
  next
    assume "fault_at e (tick s) = None"
      "fault_at e (Suc (tick s)) \<noteq> None"
    with m show ?thesis by (auto simp: ev)
  next
    assume "fault_at e (tick s) = None"
      "fault_at e (Suc (tick s)) = None"
      "fault_at e (Suc (Suc (tick s))) \<noteq> None"
    with m show ?thesis by (auto simp: ev)
  next
    assume "fault_at e (tick s) = None"
      "fault_at e (Suc (tick s)) = None"
      "fault_at e (Suc (Suc (tick s))) = None"
      "fault_at e (Suc (Suc (Suc (tick s)))) \<noteq> None"
    with m show ?thesis by (auto simp: ev)
  next
    assume "fault_at e (tick s) = None"
      "fault_at e (Suc (tick s)) = None"
      "fault_at e (Suc (Suc (tick s))) = None"
      "fault_at e (Suc (Suc (Suc (tick s)))) = None"
      "fault_at e (Suc (Suc (Suc (Suc (tick s))))) \<noteq> None"
    with m show ?thesis by (auto simp: ev)
  next
    assume "fault_at e (tick s) = None"
      "fault_at e (Suc (tick s)) = None"
      "fault_at e (Suc (Suc (tick s))) = None"
      "fault_at e (Suc (Suc (Suc (tick s)))) = None"
      "fault_at e (Suc (Suc (Suc (Suc (tick s))))) = None"
      "fault_at e (Suc (Suc (Suc (Suc (Suc (tick s)))))) \<noteq> None"
    with m show ?thesis by (auto simp: ev)
  next
    assume "fault_at e (tick s) = None"
      "fault_at e (Suc (tick s)) = None"
      "fault_at e (Suc (Suc (tick s))) = None"
      "fault_at e (Suc (Suc (Suc (tick s)))) = None"
      "fault_at e (Suc (Suc (Suc (Suc (tick s))))) = None"
      "fault_at e (Suc (Suc (Suc (Suc (Suc (tick s)))))) = None"
      "fault_at e (Suc (Suc (Suc (Suc (Suc (Suc (tick s))))))) \<noteq> None"
    with m show ?thesis by (auto simp: ev)
  next
    assume "fault_at e (tick s) = None"
      "fault_at e (Suc (tick s)) = None"
      "fault_at e (Suc (Suc (tick s))) = None"
      "fault_at e (Suc (Suc (Suc (tick s)))) = None"
      "fault_at e (Suc (Suc (Suc (Suc (tick s))))) = None"
      "fault_at e (Suc (Suc (Suc (Suc (Suc (tick s)))))) = None"
      "fault_at e (Suc (Suc (Suc (Suc (Suc (Suc (tick s))))))) = None"
      "fault_at e (Suc (Suc (Suc (Suc (Suc (Suc (Suc (tick s)))))))) \<noteq> None"
    with m show ?thesis by (auto simp: ev)
  qed
qed

lemma save_to_mysql_any_table:
  assumes k: "fully_populated data"
  shows "fst (save_to_mysql e data (s\<lparr>location_table := rows\<rparr>)) = fst (save_to_mysql e data s) \<and>
         inserts (snd (save_to_mysql e data (s\<lparr>location_table := rows\<rparr>))) =
           inserts (snd (save_to_mysql e data s)) \<and>
         created_locations (snd (save_to_mysql e data (s\<lparr>location_table := rows\<rparr>))) =
           created_locations (snd (save_to_mysql e data s)) \<and>
         drop (length rows) (location_table (snd (save_to_mysql e data (s\<lparr>location_table := rows\<rparr>)))) =
           drop (length (location_table s)) (location_table (snd (save_to_mysql e data s)))"
proof -
  obtain r1 s1 where a: "save_block e data (s\<lparr>location_table := rows\<rparr>) = (r1, s1)"
    by (cases "save_block e data (s\<lparr>location_table := rows\<rparr>)")
  obtain r2 s2 where b: "save_block e data s = (r2, s2)"
    by (cases "save_block e data s")
  from save_block_any_table [OF k, where e = e and s = s and rows = rows] a b
  have "r1 = r2" "inserts s1 = inserts s2" "created_locations s1 = created_locations s2"
    "drop (length rows) (location_table s1) = drop (length (location_table s)) (location_table s2)"
    by simp_all
  with a b show ?thesis
    by (auto simp: save_to_mysql_def split: sum.splits exn.splits)
qed

text \<open>
  C7. For a record whose trimmed name is, up to the case of the letters, the name of a
  row of the table: when no database call raises, the gateway warns, inserts and
  commits the row, appends its snapshot to the export list and returns the success
  message; when one raises, it returns the failure message of that error. Whatever the
  database calls do, the result, the rows inserted, the rows committed and the records
  added to the export list are the same as for any other content of the table, for
  instance one without that name: the duplicate check decides the warning and nothing
  else.
\<close>

theorem duplicate_name_still_inserted:
  assumes "fully_populated data"
    and "name_taken (strip (get_default data ''location_name'' [])) s"
  shows "(fault_free e s (s\<lparr>tick := tick s + 8\<rparr>) \<longrightarrow>
           save_to_mysql e data s =
             (Inr (success_prefix @ get_default data ''location_id'' []),
              s\<lparr>created_locations := created_locations s @
                   [snapshot (stored_location data (now_at e (tick s + 2)))],
                location_table := location_table s @ [stored_location data (now_at e (tick s + 2))],
                uncommitted := [],
                statements := statements s @
                  [Select_count_by_lower_name (lower (strip (get_default data ''location_name'' []))),
                   Insert_location (stored_location data (now_at e (tick s + 2)))],
                screen := screen s @ [St_warning duplicate_warning],
                tick := tick s + 8\<rparr>)) \<and>
         (\<not> fault_free e s (s\<lparr>tick := tick s + 8\<rparr>) \<longrightarrow>
           (\<exists>err s'. save_to_mysql e data s = (Inr (failure_prefix @ err), s') \<and>
              (\<exists>t \<in> {tick s..<tick s + 8}. fault_at e t = Some err))) \<and>
         (\<forall>rows.
            fst (save_to_mysql e data (s\<lparr>location_table := rows\<rparr>)) = fst (save_to_mysql e data s) \<and>
            inserts (snd (save_to_mysql e data (s\<lparr>location_table := rows\<rparr>))) =
              inserts (snd (save_to_mysql e data s)) \<and>
            created_locations (snd (save_to_mysql e data (s\<lparr>location_table := rows\<rparr>))) =
              created_locations (snd (save_to_mysql e data s)) \<and>
            drop (length rows) (location_table (snd (save_to_mysql e data (s\<lparr>location_table := rows\<rparr>)))) =
              drop (length (location_table s)) (location_table (snd (save_to_mysql e data s))))"
proof (intro conjI impI allI)
  assume "fault_free e s (s\<lparr>tick := tick s + 8\<rparr>)"
  from save_to_mysql_ok [OF assms(1) this] assms(2)
  show "save_to_mysql e data s =
             (Inr (success_prefix @ get_default data ''location_id'' []),
              s\<lparr>created_locations := created_locations s @
                   [snapshot (stored_location data (now_at e (tick s + 2)))],
                location_table := location_table s @ [stored_location data (now_at e (tick s + 2))],
                uncommitted := [],
                statements := statements s @
                  [Select_count_by_lower_name (lower (strip (get_default data ''location_name'' []))),
                   Insert_location (stored_location data (now_at e (tick s + 2)))],
                screen := screen s @ [St_warning duplicate_warning],
                tick := tick s + 8\<rparr>)"
    by simp
next
  assume "\<not> fault_free e s (s\<lparr>tick := tick s + 8\<rparr>)"
  from save_to_mysql_fault [OF assms(1) this]
  show "\<exists>err s'. save_to_mysql e data s = (Inr (failure_prefix @ err), s') \<and>
              (\<exists>t \<in> {tick s..<tick s + 8}. fault_at e t = Some err)"
    by blast
qed (simp_all add: save_to_mysql_any_table [OF assms(1)])

lemma example_name_taken:
  "name_taken (strip (get_default example_record ''location_name'' [])) (initial_state example_table)"
  by code_simp

text \<open>The table has ``Bay 1'', the record is named `` bay 1 '': the row is inserted.\<close>

theorem duplicate_name_still_inserted_witness:
  "location_table (snd (save_to_mysql (example_env (\<lambda>t. None)) example_record (initial_state example_table))) =
     example_table @ [stored_location example_record example_time] \<and>
   fst (save_to_mysql (example_env (\<lambda>t. None)) example_record (initial_state example_table)) =
     Inr (success_prefix @ ''XY001'') \<and>
   screen (snd (save_to_mysql (example_env (\<lambda>t. None)) example_record (initial_state example_table))) =
     [St_warning duplicate_warning]"
proof -
  have f: "fault_free (example_env (\<lambda>t. None)) (initial_state example_table)
             ((initial_state example_table)\<lparr>tick := tick (initial_state example_table) + 8\<rparr>)"
    by (simp add: fault_free_def example_env_def)
  from duplicate_name_still_inserted [OF example_record_populated example_name_taken,
         of "example_env (\<lambda>t. None)", THEN conjunct1, rule_format, OF f]
  show ?thesis
    by (simp add: initial_state_def example_env_def get_default_def example_record_def)
qed

section \<open>Properties of the conversation state machine\<close>

lemma map_of_setitem: "map_of (setitem k v d) = (map_of d)(k \<mapsto> v)"
  by (induction d) (auto simp: fun_eq_iff)

lemma assign_values_map_of:
  "map_of (assign_values vals (enumerate n fs) d) =
     map_of d ++ map_of (rev (zip fs (drop n vals)))"
proof (induction fs arbitrary: n d)
  case Nil
  then show ?case by simp
next
  case (Cons f fs)
  show ?case
  proof (cases "n < length vals")
    case True
    then have d: "drop n vals = vals ! n # drop (Suc n) vals"
      by (simp add: Cons_nth_drop_Suc)
    show ?thesis
      using True by (simp add: Cons.IH d map_of_setitem map_add_def fun_eq_iff split: option.splits)
  next
    case False
    then show ?thesis by (simp add: Cons.IH)
  qed
qed

lemma assign_values_other:
  "k \<notin> set fs \<Longrightarrow> map_of (assign_values vals (enumerate n fs) d) k = map_of d k"
proof -
  assume "k \<notin> set fs"
  then have "k \<notin> fst ` set (rev (zip fs (drop n vals)))"
    by (auto dest: set_zip_leftD)
  then have "map_of (rev (zip fs (drop n vals))) k = None"
    by (simp add: map_of_eq_None_iff)
  then show ?thesis by (simp add: assign_values_map_of map_add_def)
qed

lemma assign_values_nth:
  "distinct fs \<Longrightarrow> i < length fs \<Longrightarrow>
     map_of (assign_values vals (enumerate n fs) d) (fs ! i) =
       (if n + i < length vals then Some (vals ! (n + i)) else map_of d (fs ! i))"
proof (induction fs arbitrary: n d i)
  case Nil
  then show ?case by simp
next
  case (Cons f fs)
  show ?case
  proof (cases i)
    case 0
    from Cons.prems have "f \<notin> set fs" by simp
    from assign_values_other [OF this] 0 show ?thesis
      by (simp add: map_of_setitem)
  next
    case (Suc j)
    with Cons.prems have j: "j < length fs" and d: "distinct fs" and ne: "fs ! j \<noteq> f"
      by auto
    from Cons.IH [OF d j] Suc ne show ?thesis
      by (simp add: map_of_setitem)
  qed
qed

lemma split_example:
  "map strip (split_comma ''Bay 1, Shelf, A, 3, SITE01'') = [''Bay 1'', ''Shelf'', ''A'', ''3'', ''SITE01'']"
  by code_simp

lemma split_empty_piece: "map strip (split_comma ''a,,b'') = [''a'', [], ''b'']"
  by code_simp

lemma save_to_mysql_frame:
  assumes k: "fully_populated data" and r: "save_to_mysql e data s = (r, s')"
  shows "conversation_kept s s' \<and> (\<exists>msg. r = Inr msg) \<and>
         (inserts s' = inserts s \<longrightarrow> created_locations s' = created_locations s)"
proof (cases "fault_free e s (s\<lparr>tick := tick s + 8\<rparr>)")
  case True
  from save_to_mysql_ok [OF k True] r show ?thesis
    by (auto simp: conversation_kept_def inserts_def)
next
  case False
  from save_to_mysql_fault [OF k False] r show ?thesis
    by (auto simp: conversation_kept_def save_failed_def)
qed

lemma try_candidate_frame:
  assumes "try_candidate e s = Return i s' \<or> try_candidate e s = Again s'"
  shows "conversation_kept s s' \<and> nothing_persisted s s' \<and> shown s' = shown s"
proof -
  obtain c s2 where d: "draw_candidate e s = (c, s2)"
    by (cases "draw_candidate e s")
  obtain r s3 where x: "location_id_exists e c s2 = (r, s3)"
    by (cases "location_id_exists e c s2")
  note dr = draw_candidate_result [OF d]
  note xr = location_id_exists_result [OF x]
  from assms d x have "s' = s3 \<or> (\<exists>m. s' = display (St_error m) s3)"
    by (auto simp: try_candidate_def split: sum.splits exn.splits if_splits)
  with dr xr show ?thesis
    by (auto simp: conversation_kept_def nothing_persisted_def inserts_def display_def shown_def)
qed

lemma generate_location_id_frame:
  assumes "generate_location_id e s = Some (r, s')"
  shows "conversation_kept s s' \<and> nothing_persisted s s' \<and> shown s' = shown s"
proof -
  let ?P = "\<lambda>(e::env) s y. case y of (r, s') \<Rightarrow>
              conversation_kept s s' \<and> nothing_persisted s s' \<and> shown s' = shown s"
  have "?P e s (r, s')"
  proof (rule generate_location_id.raw_induct [where P = ?P, OF _ assms])
    fix gen e s y
    assume IH: "\<And>e s y. gen e s = Some y \<Longrightarrow> ?P e s y"
      and step: "(case try_candidate e s of
                    Return loc_id s' \<Rightarrow> Some (Inr loc_id, s')
                  | Again s' \<Rightarrow> gen e s'
                  | Propagate x s' \<Rightarrow> Some (Inl x, s')) = Some y"
    show "?P e s y"
    proof (cases "try_candidate e s")
      case (Return i s1)
      with step have "y = (Inr i, s1)" by simp
      with try_candidate_frame [of e s i s1] Return show ?thesis by simp
    next
      case (Again s1)
      with step have g: "gen e s1 = Some y" by simp
      from try_candidate_frame [of e s _ s1] Again
      have "conversation_kept s s1 \<and> nothing_persisted s s1 \<and> shown s1 = shown s" by simp
      with IH [OF g] show ?thesis
        by (auto simp: conversation_kept_def nothing_persisted_def)
    next
      case (Propagate x s1)
      with try_candidate_no_propagate show ?thesis by blast
    qed
  qed
  then show ?thesis by simp
qed

lemma missing_fields_cong:
  "collected_data a = collected_data b \<Longrightarrow> missing_fields a = missing_fields b"
  by (simp add: missing_fields_def)

lemma missing_fields_setitem:
  "k \<notin> set required_fields \<Longrightarrow>
     missing_fields (s\<lparr>collected_data := setitem k v (collected_data s)\<rparr>) = missing_fields s"
  by (auto simp: missing_fields_def get_def map_of_setitem intro!: filter_cong)

lemma missing_fields_empty:
  "missing_fields s = [] \<longleftrightarrow> (\<forall>f \<in> set required_fields. truthy (get (collected_data s) f))"
  by (auto simp: missing_fields_def filter_empty_conv)

lemma complete_populated:
  assumes "missing_fields s = []" and "contains (collected_data s) ''location_id''"
  shows "fully_populated (collected_data s)"
proof -
  from assms(1) have "\<forall>f \<in> set required_fields. contains (collected_data s) f"
    by (auto simp: missing_fields_empty contains_def get_def truthy_def split: option.splits)
  with assms(2) show ?thesis
    by (simp add: fully_populated_def list_all_iff)
qed

lemma fully_populated_setitem:
  "fully_populated d \<Longrightarrow> fully_populated (setitem k v d)"
  by (auto simp: fully_populated_def required_fields_def contains_def map_of_setitem)

lemma approval_step_result:
  assumes k: "fully_populated (collected_data s)" and a: "approval_step e u s = (r, s')"
  shows "fields_kept s s' \<and> awaiting_fields s' = awaiting_fields s \<and>
         (\<exists>reply. r = Inr reply) \<and>
         (approval_status s \<noteq> Some ''pending'' \<or> lower u \<notin> set [''yes'', ''y''] \<longrightarrow>
            nothing_persisted s s')"
proof (cases "approval_status s = Some ''pending'' \<and> lower u \<in> set [''yes'', ''y'']")
  case True
  define s1 where "s1 = (if \<not> contains (collected_data s) ''created_by''
                      then s\<lparr>collected_data := setitem ''created_by'' ''AI'' (collected_data s)\<rparr>
                      else s)"
  obtain r2 s2 where sv: "save_to_mysql e (collected_data s1) s1 = (r2, s2)"
    by (cases "save_to_mysql e (collected_data s1) s1")
  have k1: "fully_populated (collected_data s1)"
    using k by (simp add: s1_def fully_populated_setitem)
  have m1: "fields_kept s s1" and a1: "awaiting_fields s1 = awaiting_fields s"
    by (simp_all add: s1_def fields_kept_def get_def map_of_setitem required_fields_def)
  from save_to_mysql_frame [OF k1 sv] obtain msg where
    f: "conversation_kept s1 s2" and r2: "r2 = Inr msg"
    by blast
  from a True sv r2 have "r = Inr msg" and "s' = s2\<lparr>approval_status := Some ''approved''\<rparr>"
    by (simp_all add: approval_step_def s1_def [symmetric] Let_def)
  moreover from f have "collected_data s2 = collected_data s1" "awaiting_fields s2 = awaiting_fields s1"
    by (simp_all add: conversation_kept_def)
  ultimately show ?thesis
    using True m1 a1 by (simp add: fields_kept_def)
next
  case False
  with a show ?thesis
    by (auto simp: approval_step_def nothing_persisted_def inserts_def fields_kept_def
          lift_def ai_response_def advance_def split: if_splits sum.splits)
qed

lemma fields_kept_missing: "fields_kept s s' \<Longrightarrow> missing_fields s' = missing_fields s"
  by (auto simp: fields_kept_def missing_fields_def intro!: filter_cong)

lemma complete_step_result:
  assumes m: "missing_fields s = []" and c: "complete_step e u s = Some (r, s')"
  shows "fields_kept s s' \<and> awaiting_fields s' = awaiting_fields s \<and>
         (\<exists>reply. r = Inr reply) \<and>
         (approval_status s \<noteq> Some ''pending'' \<or> lower u \<notin> set [''yes'', ''y''] \<longrightarrow>
            nothing_persisted s s')"
proof (cases "contains (collected_data s) ''location_id''")
  case True
  with c have a: "approval_step e u s = (r, s')" by (simp add: complete_step_def)
  from approval_step_result [OF complete_populated [OF m True] a] show ?thesis by simp
next
  case False
  with c obtain g sg where g: "generate_location_id e s = Some (g, sg)"
    by (auto simp: complete_step_def split: option.splits)
  from generate_location_id_returns [OF g] obtain loc_id where gi: "g = Inr loc_id"
    by blast
  let ?s1 = "sg\<lparr>collected_data := setitem ''location_id'' loc_id (collected_data sg)\<rparr>"
  from c False g gi have a: "approval_step e u ?s1 = (r, s')"
    by (simp add: complete_step_def)
  from generate_location_id_frame [OF g] have f: "conversation_kept s sg" "nothing_persisted s sg"
    by simp_all
  from f(1) have k1: "fields_kept s ?s1"
    by (simp add: conversation_kept_def fields_kept_def get_def map_of_setitem required_fields_def)
  with m have m1: "missing_fields ?s1 = []"
    by (simp add: fields_kept_missing)
  have c1: "contains (collected_data ?s1) ''location_id''"
    by (simp add: contains_def map_of_setitem)
  from approval_step_result [OF complete_populated [OF m1 c1] a] k1 f
  show ?thesis
    by (auto simp: conversation_kept_def nothing_persisted_def inserts_def fields_kept_def)
qed

lemma on_user_input_result:
  assumes "on_user_input e u s = Some (r, s')"
  shows "r = Inr () \<and>
         (u \<noteq> [] \<longrightarrow> fields_kept (after_assignment u s) s' \<and>
                     awaiting_fields s' = recomputed_missing u s) \<and>
         (u = [] \<or> recomputed_missing u s \<noteq> [] \<or> approval_status s \<noteq> Some ''pending'' \<or>
            lower u \<notin> set [''yes'', ''y''] \<longrightarrow> nothing_persisted s s')"
proof (cases "u = []")
  case True
  with assms show ?thesis by (simp add: on_user_input_def nothing_persisted_def)
next
  case False
  let ?s1 = "s\<lparr>chat_history := chat_history s @ [\<lparr>role = ''user'', msg_text = u\<rparr>]\<rparr>"
  let ?s2 = "if awaiting_fields ?s1 \<noteq> [] then collect_values u ?s1 else ?s1"
  have rm: "missing_fields ?s2 = recomputed_missing u s"
    by (simp add: recomputed_missing_def missing_fields_def collect_values_def Let_def)
  have fk: "fields_kept (after_assignment u s) ?s2"
    by (simp add: after_assignment_def fields_kept_def collect_values_def Let_def)
  have n2: "nothing_persisted s ?s2" and ap: "approval_status ?s2 = approval_status s"
    and aw: "missing_fields ?s2 = [] \<Longrightarrow> awaiting_fields ?s2 = []"
    by (auto simp: nothing_persisted_def inserts_def collect_values_def Let_def)
  show ?thesis
  proof (cases "missing_fields ?s2 = []")
    case miss: False
    with assms False have "r = Inr ()"
      and "s' = ?s2\<lparr>awaiting_fields := missing_fields ?s2,
                     chat_history := chat_history ?s2 @
                       [\<lparr>role = ''assistant'', msg_text = missing_prompt (missing_fields ?s2)\<rparr>]\<rparr>"
      by (simp_all add: on_user_input_def Let_def)
    with False rm n2 fk show ?thesis
      by (simp add: nothing_persisted_def inserts_def fields_kept_def)
  next
    case miss: True
    with assms False obtain r3 s3 where c: "complete_step e u ?s2 = Some (r3, s3)"
      by (auto simp: on_user_input_def Let_def split: option.splits)
    from complete_step_result [OF miss c] obtain reply where
      r3: "r3 = Inr reply" and m3: "fields_kept ?s2 s3"
      and a3: "awaiting_fields s3 = awaiting_fields ?s2"
      and p3: "approval_status ?s2 \<noteq> Some ''pending'' \<or> lower u \<notin> set [''yes'', ''y''] \<longrightarrow>
                 nothing_persisted ?s2 s3"
      by blast
    from assms False miss c r3
    have r: "r = Inr ()"
      and s': "s' = s3\<lparr>chat_history := chat_history s3 @ [\<lparr>role = ''assistant'', msg_text = reply\<rparr>]\<rparr>"
      by (simp_all add: on_user_input_def Let_def)
    from p3 ap n2 s' have "approval_status s \<noteq> Some ''pending'' \<or> lower u \<notin> set [''yes'', ''y''] \<longrightarrow>
                 nothing_persisted s s'"
      by (auto simp: nothing_persisted_def inserts_def)
    moreover from fk m3 s' have "fields_kept (after_assignment u s) s'"
      by (simp add: fields_kept_def)
    ultimately show ?thesis
      using r s' a3 aw [OF miss] miss rm False by simp
  qed
qed

text \<open>
  C3. In a turn, while \<open>approval_status\<close> is \<open>None\<close> or the recomputed list of missing
  fields is not empty, no \<open>INSERT\<close> is executed, no row is committed and no record is
  added to the export list. A turn that executes an \<open>INSERT\<close> is one in which no field
  is missing after the assignment step (nor at the end of the turn), the status was
  \<open>pending\<close> and the answer, in lower case, was \<open>yes\<close> or \<open>y\<close>.
\<close>

theorem insert_only_after_confirmation:
  assumes "on_user_input e user_input s = Some (r, s')"
  shows "(approval_status s = None \<or> recomputed_missing user_input s \<noteq> [] \<longrightarrow>
            nothing_persisted s s') \<and>
         (inserts s' \<noteq> inserts s \<longrightarrow>
            recomputed_missing user_input s = [] \<and> missing_fields s' = [] \<and>
            approval_status s = Some ''pending'' \<and> lower user_input \<in> set [''yes'', ''y''])"
proof -
  note r = on_user_input_result [OF assms]
  have "missing_fields s' = recomputed_missing user_input s" if "user_input \<noteq> []"
    using r that fields_kept_missing [of "after_assignment user_input s" s']
    by (simp add: recomputed_missing_def after_assignment_def)
  with r show ?thesis
    by (auto simp: nothing_persisted_def)
qed

lemma example_yes:
  "map_option (\<lambda>(r, s'). (r, inserts s', approval_status s'))
     (on_user_input (example_env (\<lambda>t. None)) ''Yes'' example_pending) =
     Some (Inr (), [stored_location (example_record @ [(''created_by'', ''AI'')]) example_time], Some ''approved'')"
  by code_simp

text \<open>The answer ``Yes'' to the confirmation of a complete form inserts one row.\<close>

theorem insert_only_after_confirmation_witness:
  "\<exists>s'. on_user_input (example_env (\<lambda>t. None)) ''Yes'' example_pending = Some (Inr (), s') \<and>
         inserts s' \<noteq> inserts example_pending \<and>
         recomputed_missing ''Yes'' example_pending = [] \<and> missing_fields s' = [] \<and>
         approval_status example_pending = Some ''pending'' \<and> lower ''Yes'' \<in> set [''yes'', ''y'']"
proof -
  from example_yes obtain s' where
    r: "on_user_input (example_env (\<lambda>t. None)) ''Yes'' example_pending = Some (Inr (), s')"
    and i: "inserts s' = [stored_location (example_record @ [(''created_by'', ''AI'')]) example_time]"
    by auto
  have "inserts example_pending = []"
    by (simp add: example_pending_def initial_state_def inserts_def)
  with i have "inserts s' \<noteq> inserts example_pending" by simp
  with insert_only_after_confirmation [OF r] r show ?thesis by blast
qed

lemma cancel_turn:
  assumes c: "form_complete ''pending'' s" and n: "lower u \<in> set [''no'', ''n'']"
  shows "on_user_input e u s =
           Some (Inr (), s\<lparr>chat_history := chat_history s @
                             [\<lparr>role = ''user'', msg_text = u\<rparr>,
                              \<lparr>role = ''assistant'', msg_text = cancelled_reply\<rparr>],
                           approval_status := Some ''cancelled''\<rparr>)"
proof -
  from n have u: "u \<noteq> []" and y: "lower u \<notin> set [''yes'', ''y'']"
    by (auto simp: lower_def)
  let ?s1 = "s\<lparr>chat_history := chat_history s @ [\<lparr>role = ''user'', msg_text = u\<rparr>]\<rparr>"
  from c have m: "missing_fields ?s1 = []" and a: "awaiting_fields ?s1 = []"
    and i: "contains (collected_data ?s1) ''location_id''"
    and p: "approval_status ?s1 = Some ''pending''"
    by (simp_all add: form_complete_def missing_fields_def)
  from p y n have "approval_step e u ?s1 = (Inr cancelled_reply, ?s1\<lparr>approval_status := Some ''cancelled''\<rparr>)"
    by (simp add: approval_step_def)
  with i have "complete_step e u ?s1 = Some (Inr cancelled_reply, ?s1\<lparr>approval_status := Some ''cancelled''\<rparr>)"
    by (simp add: complete_step_def)
  with u m a show ?thesis
    by (simp add: on_user_input_def Let_def)
qed

lemma fallback_turn:
  assumes c: "form_complete status s" and n: "status \<noteq> ''pending''" and u: "u \<noteq> []"
  shows "on_user_input e u s =
           Some (Inr (), s\<lparr>chat_history := chat_history s @
                             [\<lparr>role = ''user'', msg_text = u\<rparr>,
                              \<lparr>role = ''assistant'', msg_text = fst (ai_response e u s)\<rparr>],
                           tick := Suc (tick s)\<rparr>)"
proof -
  let ?s1 = "s\<lparr>chat_history := chat_history s @ [\<lparr>role = ''user'', msg_text = u\<rparr>]\<rparr>"
  from c have m: "missing_fields ?s1 = []" and a: "awaiting_fields ?s1 = []"
    and i: "contains (collected_data ?s1) ''location_id''"
    and p: "approval_status ?s1 = Some status"
    by (simp_all add: form_complete_def missing_fields_def)
  from p n have "approval_step e u ?s1 = (Inr (fst (ai_response e u s)), ?s1\<lparr>tick := Suc (tick s)\<rparr>)"
    by (simp add: approval_step_def lift_def ai_response_def advance_def split: sum.splits)
  with i have "complete_step e u ?s1 = Some (Inr (fst (ai_response e u s)), ?s1\<lparr>tick := Suc (tick s)\<rparr>)"
    by (simp add: complete_step_def)
  with u m a show ?thesis
    by (simp add: on_user_input_def Let_def)
qed

lemma resolved_conversation:
  assumes "form_complete status s" and "status \<noteq> ''pending''"
  shows "\<exists>s'. conversation e us s = Some (Inr (), s') \<and> form_complete status s' \<and>
              statements s' = statements s \<and> nothing_persisted s s'"
  using assms(1)
proof (induction us arbitrary: s)
  case Nil
  then show ?case by (simp add: nothing_persisted_def)
next
  case (Cons u us)
  show ?case
  proof (cases "u = []")
    case True
    then have "on_user_input e u s = Some (Inr (), s)" by (simp add: on_user_input_def)
    with Cons.IH [OF Cons.prems] show ?thesis by simp
  next
    case False
    let ?s1 = "s\<lparr>chat_history := chat_history s @
                             [\<lparr>role = ''user'', msg_text = u\<rparr>,
                              \<lparr>role = ''assistant'', msg_text = fst (ai_response e u s)\<rparr>],
                           tick := Suc (tick s)\<rparr>"
    from Cons.prems have c1: "form_complete status ?s1"
      by (simp add: form_complete_def missing_fields_def)
    from Cons.IH [OF c1] fallback_turn [OF Cons.prems assms(2) False, of e]
    show ?thesis
      by (auto simp: nothing_persisted_def inserts_def)
  qed
qed

text \<open>
  C8. With the five fields collected, an identifier assigned and the status \<open>pending\<close>,
  the answer \<open>no\<close> or \<open>n\<close> (in any case of the letters) sets the status to
  \<open>cancelled\<close> and replies with the cancellation message; no statement is sent to the
  database in that turn or in any run of later turns of the session, nothing is committed
  or added to the export list, and every later message is answered by the language-model
  fallback.
\<close>

theorem cancelled_never_inserts:
  assumes "form_complete ''pending'' s" and "lower user_input \<in> set [''no'', ''n'']"
  shows "\<exists>s'. on_user_input e user_input s = Some (Inr (), s') \<and>
           approval_status s' = Some ''cancelled'' \<and> replied cancelled_reply s' \<and>
           statements s' = statements s \<and> nothing_persisted s s' \<and>
           (\<forall>later. \<exists>s''. conversation e later s' = Some (Inr (), s'') \<and>
                       form_complete ''cancelled'' s'' \<and> statements s'' = statements s \<and>
                       nothing_persisted s s'') \<and>
           (\<forall>s1 u. form_complete ''cancelled'' s1 \<and> u \<noteq> [] \<longrightarrow>
              (\<exists>s2. on_user_input e u s1 = Some (Inr (), s2) \<and> replied (fst (ai_response e u s1)) s2 \<and>
                     form_complete ''cancelled'' s2 \<and> statements s2 = statements s1))"
proof -
  let ?s' = "s\<lparr>chat_history := chat_history s @
                             [\<lparr>role = ''user'', msg_text = user_input\<rparr>,
                              \<lparr>role = ''assistant'', msg_text = cancelled_reply\<rparr>],
                           approval_status := Some ''cancelled''\<rparr>"
  note t = cancel_turn [OF assms, of e]
  from assms(1) have c: "form_complete ''cancelled'' ?s'"
    by (simp add: form_complete_def missing_fields_def)
  have n: "''cancelled'' \<noteq> ''pending''" by simp
  have later: "\<exists>s''. conversation e later ?s' = Some (Inr (), s'') \<and>
                       form_complete ''cancelled'' s'' \<and> statements s'' = statements s \<and>
                       nothing_persisted s s''" for later
    using resolved_conversation [OF c n, of e later]
    by (auto simp: nothing_persisted_def inserts_def)
  have fb: "\<exists>s2. on_user_input e u s1 = Some (Inr (), s2) \<and> replied (fst (ai_response e u s1)) s2 \<and>
                     form_complete ''cancelled'' s2 \<and> statements s2 = statements s1"
    if "form_complete ''cancelled'' s1 \<and> u \<noteq> []" for s1 u
    using that fallback_turn [of "''cancelled''" s1 u e]
    by (simp add: replied_def form_complete_def missing_fields_def)
  from t c later fb show ?thesis
    by (auto simp: replied_def nothing_persisted_def inserts_def)
qed

lemma example_pending_complete: "form_complete ''pending'' example_pending"
  by code_simp

lemma example_no: "lower ''No'' \<in> set [''no'', ''n'']"
  by code_simp

text \<open>The answer ``No'', then two more messages (the second one ``yes'').\<close>

theorem cancelled_never_inserts_witness:
  "\<exists>s'. on_user_input (example_env (\<lambda>t. None)) ''No'' example_pending = Some (Inr (), s') \<and>
         approval_status s' = Some ''cancelled'' \<and> replied cancelled_reply s' \<and>
         (\<exists>s''. conversation (example_env (\<lambda>t. None)) [''Is it done?'', ''yes''] s' = Some (Inr (), s'') \<and>
                statements s'' = [] \<and> location_table s'' = example_table \<and>
                created_locations s'' = [])"
proof -
  from cancelled_never_inserts [OF example_pending_complete example_no, of "example_env (\<lambda>t. None)"]
  obtain s' where
    t: "on_user_input (example_env (\<lambda>t. None)) ''No'' example_pending = Some (Inr (), s')"
       "approval_status s' = Some ''cancelled''" "replied cancelled_reply s'"
    and l: "\<forall>later. \<exists>s''. conversation (example_env (\<lambda>t. None)) later s' = Some (Inr (), s'') \<and>
               form_complete ''cancelled'' s'' \<and> statements s'' = statements example_pending \<and>
               nothing_persisted example_pending s''"
    by blast
  from l obtain s'' where
    "conversation (example_env (\<lambda>t. None)) [''Is it done?'', ''yes''] s' = Some (Inr (), s'')"
    "statements s'' = statements example_pending" "nothing_persisted example_pending s''"
    by blast
  with t show ?thesis
    by (auto simp: nothing_persisted_def example_pending_def initial_state_def)
qed

lemma collect_values_map_of:
  "map_of (collected_data (collect_values u s)) =
     map_of (collected_data s) ++ map_of (rev (zip (awaiting_fields s) (map strip (split_comma u))))"
  using assign_values_map_of [of "map strip (split_comma u)" 0 "awaiting_fields s" "collected_data s"]
  by (simp add: collect_values_def Let_def)

lemma collect_values_nth:
  assumes "distinct (awaiting_fields s)" and "i < length (awaiting_fields s)"
  shows "get (collected_data (collect_values u s)) (awaiting_fields s ! i) =
           (if i < length (map strip (split_comma u)) then Some (map strip (split_comma u) ! i)
            else get (collected_data s) (awaiting_fields s ! i))"
  using assign_values_nth [OF assms, of "map strip (split_comma u)" 0 "collected_data s"]
  by (simp add: collect_values_def Let_def get_def)

lemma collect_values_other:
  "k \<notin> set (awaiting_fields s) \<Longrightarrow>
     get (collected_data (collect_values u s)) k = get (collected_data s) k"
  using assign_values_other [of k "awaiting_fields s" "map strip (split_comma u)" 0 "collected_data s"]
  by (simp add: collect_values_def Let_def get_def)

lemma collect_example:
  assumes "awaiting_fields s = required_fields"
  shows "awaiting_fields (collect_values ''Bay 1, Shelf, A, 3, SITE01'' s) = [] \<and>
         get (collected_data (collect_values ''Bay 1, Shelf, A, 3, SITE01'' s)) ''location_name'' = Some ''Bay 1'' \<and>
         get (collected_data (collect_values ''Bay 1, Shelf, A, 3, SITE01'' s)) ''location_type'' = Some ''Shelf'' \<and>
         get (collected_data (collect_values ''Bay 1, Shelf, A, 3, SITE01'' s)) ''zone'' = Some ''A'' \<and>
         get (collected_data (collect_values ''Bay 1, Shelf, A, 3, SITE01'' s)) ''aisle'' = Some ''3'' \<and>
         get (collected_data (collect_values ''Bay 1, Shelf, A, 3, SITE01'' s)) ''site_code'' = Some ''SITE01''"
  using assms
  by (simp add: collect_values_def Let_def split_example required_fields_def get_def
        map_of_setitem enumerate_eq_zip upt_rec del: split_comma.simps)

lemma collect_example_missing:
  assumes "awaiting_fields s = required_fields"
  shows "missing_fields (collect_values ''Bay 1, Shelf, A, 3, SITE01'' s) = []"
  using collect_example [OF assms]
  by (simp add: missing_fields_def required_fields_def truthy_def)

text \<open>
  C4. While the five required fields are awaited in their order, the message
  ``Bay 1, Shelf, A, 3, SITE01'' is split on commas, each piece trimmed and assigned to the
  field of the same position, and the awaited list is cleared; this holds for the
  assignment step and for the state at the end of the turn. In general, after the
  assignment step nothing is awaited; the collected data are the old ones overridden by
  the pairs of awaited field and trimmed piece of the same position (so that pieces
  beyond the awaited fields are dropped); for an awaited list without repetitions the
  i-th field has the i-th piece when there is one and keeps its former value otherwise;
  and every other key keeps its value.
\<close>

theorem positional_assignment:
  "(awaiting_fields s = required_fields \<longrightarrow>
      awaiting_fields (collect_values ''Bay 1, Shelf, A, 3, SITE01'' s) = [] \<and>
      get (collected_data (collect_values ''Bay 1, Shelf, A, 3, SITE01'' s)) ''location_name'' = Some ''Bay 1'' \<and>
      get (collected_data (collect_values ''Bay 1, Shelf, A, 3, SITE01'' s)) ''location_type'' = Some ''Shelf'' \<and>
      get (collected_data (collect_values ''Bay 1, Shelf, A, 3, SITE01'' s)) ''zone'' = Some ''A'' \<and>
      get (collected_data (collect_values ''Bay 1, Shelf, A, 3, SITE01'' s)) ''aisle'' = Some ''3'' \<and>
      get (collected_data (collect_values ''Bay 1, Shelf, A, 3, SITE01'' s)) ''site_code'' = Some ''SITE01'') \<and>
   (awaiting_fields s = required_fields \<and>
    on_user_input e ''Bay 1, Shelf, A, 3, SITE01'' s = Some (r, s') \<longrightarrow>
      awaiting_fields s' = [] \<and>
      get (collected_data s') ''location_name'' = Some ''Bay 1'' \<and>
      get (collected_data s') ''location_type'' = Some ''Shelf'' \<and>
      get (collected_data s') ''zone'' = Some ''A'' \<and>
      get (collected_data s') ''aisle'' = Some ''3'' \<and>
      get (collected_data s') ''site_code'' = Some ''SITE01'') \<and>
   awaiting_fields (collect_values u s) = [] \<and>
   map_of (collected_data (collect_values u s)) =
     map_of (collected_data s) ++ map_of (rev (zip (awaiting_fields s) (map strip (split_comma u)))) \<and>
   (distinct (awaiting_fields s) \<longrightarrow>
      (\<forall>i < length (awaiting_fields s).
         get (collected_data (collect_values u s)) (awaiting_fields s ! i) =
           (if i < length (map strip (split_comma u)) then Some (map strip (split_comma u) ! i)
            else get (collected_data s) (awaiting_fields s ! i)))) \<and>
   (\<forall>k. k \<notin> set (awaiting_fields s) \<longrightarrow>
      get (collected_data (collect_values u s)) k = get (collected_data s) k)"
proof (intro conjI impI allI)
  assume a: "awaiting_fields s = required_fields \<and>
    on_user_input e ''Bay 1, Shelf, A, 3, SITE01'' s = Some (r, s')"
  then have aw: "awaiting_fields s = required_fields" by simp
  have ne: "''Bay 1, Shelf, A, 3, SITE01'' \<noteq> []" by simp
  from aw have aa: "after_assignment ''Bay 1, Shelf, A, 3, SITE01'' s =
                      collect_values ''Bay 1, Shelf, A, 3, SITE01'' s"
    by (simp add: after_assignment_def required_fields_def)
  from aw have rm: "recomputed_missing ''Bay 1, Shelf, A, 3, SITE01'' s = []"
    using collect_example_missing [OF aw]
    by (simp add: recomputed_missing_def required_fields_def)
  from on_user_input_result [of e "''Bay 1, Shelf, A, 3, SITE01''" s r s'] a ne aa rm
  have k: "fields_kept (collect_values ''Bay 1, Shelf, A, 3, SITE01'' s) s'"
    and w: "awaiting_fields s' = []"
    by simp_all
  from w show "awaiting_fields s' = []" .
  from k collect_example [OF aw]
  show "get (collected_data s') ''location_name'' = Some ''Bay 1''"
    "get (collected_data s') ''location_type'' = Some ''Shelf''"
    "get (collected_data s') ''zone'' = Some ''A''"
    "get (collected_data s') ''aisle'' = Some ''3''"
    "get (collected_data s') ''site_code'' = Some ''SITE01''"
    by (simp_all add: fields_kept_def required_fields_def)
qed (simp_all add: collect_example collect_values_map_of collect_values_nth collect_values_other,
     simp add: collect_values_def Let_def)


lemma example_awaiting_all_fields: "awaiting_fields example_awaiting_all = required_fields"
  by (simp add: example_awaiting_all_def initial_state_def)

lemma example_collecting_fields:
  "distinct (awaiting_fields example_collecting)" "2 < length (awaiting_fields example_collecting)"
  "awaiting_fields example_collecting ! 2 = ''site_code''"
  "get (collected_data example_collecting) ''site_code'' = None"
  by (simp_all add: example_collecting_def initial_state_def get_def)

lemma split_short: "map strip (split_comma ''x, y'') = [''x'', ''y'']"
  by code_simp

lemma split_padded:
  "map strip (split_comma (''x,'' @ no_break_space @ ''y '' @ no_break_space)) = [''x'', ''y'']"
  by code_simp

lemma example_collecting_second:
  "1 < length (awaiting_fields example_collecting)"
  "awaiting_fields example_collecting ! 1 = ''aisle''"
  by (simp_all add: example_collecting_def initial_state_def)

text \<open>All five values at once; two values for three awaited fields, which leaves the
  third field unset; and a value between no-break spaces, which is assigned without them.\<close>

theorem positional_assignment_witness:
  "awaiting_fields (collect_values ''Bay 1, Shelf, A, 3, SITE01'' example_awaiting_all) = [] \<and>
   get (collected_data (collect_values ''Bay 1, Shelf, A, 3, SITE01'' example_awaiting_all)) ''zone'' = Some ''A'' \<and>
   get (collected_data (collect_values ''x, y'' example_collecting)) ''site_code'' = None \<and>
   get (collected_data (collect_values (''x,'' @ no_break_space @ ''y '' @ no_break_space)
                          example_collecting)) ''aisle'' = Some ''y''"
proof -
  note a = positional_assignment [THEN conjunct1, rule_format, of example_awaiting_all,
             OF example_awaiting_all_fields]
  note b = positional_assignment [THEN conjunct2, THEN conjunct2, THEN conjunct2, THEN conjunct2,
             THEN conjunct1, rule_format, of example_collecting 2 "''x, y''",
             OF example_collecting_fields(1) example_collecting_fields(2)]
  note c = positional_assignment [THEN conjunct2, THEN conjunct2, THEN conjunct2, THEN conjunct2,
             THEN conjunct1, rule_format, of example_collecting 1
             "''x,'' @ no_break_space @ ''y '' @ no_break_space",
             OF example_collecting_fields(1) example_collecting_second(1)]
  from c [unfolded split_padded example_collecting_second(2)]
  have c': "get (collected_data (collect_values (''x,'' @ no_break_space @ ''y '' @ no_break_space)
                          example_collecting)) ''aisle'' = Some ''y''"
    by simp
  from a b c' show ?thesis
    by (simp add: example_collecting_fields split_short del: split_comma.simps)
qed

text \<open>
  C10. Whatever the first message of a session says, it assigns no field: the turn
  leaves the collected data empty, asks for all five required fields and awaits them
  (an empty input is no turn at all). More generally, a turn that starts with nothing
  awaited leaves the value of every required field as it was.
\<close>

theorem first_message_collects_nothing:
  "on_user_input e user_input (initial_state rows) =
     Some (Inr (),
           if user_input = [] then initial_state rows
           else (initial_state rows)
                  \<lparr>chat_history := [\<lparr>role = ''user'', msg_text = user_input\<rparr>,
                                    \<lparr>role = ''assistant'', msg_text = missing_prompt required_fields\<rparr>],
                   awaiting_fields := required_fields\<rparr>) \<and>
   (awaiting_fields s = [] \<and> on_user_input e user_input s = Some (r, s') \<longrightarrow> fields_kept s s')"
proof (intro conjI impI)
  have "missing_fields ((initial_state rows)\<lparr>chat_history := h\<rparr>) = required_fields" for h
    by (simp add: missing_fields_def initial_state_def get_def truthy_def required_fields_def)
  then show "on_user_input e user_input (initial_state rows) =
     Some (Inr (),
           if user_input = [] then initial_state rows
           else (initial_state rows)
                  \<lparr>chat_history := [\<lparr>role = ''user'', msg_text = user_input\<rparr>,
                                    \<lparr>role = ''assistant'', msg_text = missing_prompt required_fields\<rparr>],
                   awaiting_fields := required_fields\<rparr>)"
    by (simp add: on_user_input_def Let_def) (simp add: initial_state_def required_fields_def)
next
  assume a: "awaiting_fields s = [] \<and> on_user_input e user_input s = Some (r, s')"
  show "fields_kept s s'"
  proof (cases "user_input = []")
    case True
    with a show ?thesis by (simp add: on_user_input_def fields_kept_def)
  next
    case False
    with a on_user_input_result [of e user_input s r s'] show ?thesis
      by (simp add: after_assignment_def)
  qed
qed

text \<open>A first message with all five values: nothing is collected, all five are asked for.\<close>

theorem first_message_collects_nothing_witness:
  "\<exists>s'. on_user_input (example_env (\<lambda>t. None)) ''Bay 1, Shelf, A, 3, SITE01'' (initial_state example_table) =
          Some (Inr (), s') \<and>
        collected_data s' = [] \<and> awaiting_fields s' = required_fields \<and>
        replied (missing_prompt required_fields) s'"
  using first_message_collects_nothing
          [THEN conjunct1, of "example_env (\<lambda>t. None)" "''Bay 1, Shelf, A, 3, SITE01''" example_table]
  by (simp add: replied_def initial_state_def)

lemma missing_fields_filter:
  "missing_fields s =
     filter (\<lambda>f. get (collected_data s) f = None \<or> get (collected_data s) f = Some []) required_fields"
proof -
  have "(\<not> truthy v) = (v = None \<or> v = Some [])" for v :: "string option"
    by (cases v) (simp_all add: truthy_def)
  then show ?thesis by (simp add: missing_fields_def)
qed

text \<open>
  C9. The missing fields are exactly the required fields whose value is absent or the
  empty string. So in a turn in which an awaited required field gets an empty (trimmed)
  piece, the field has the value \<open>''\<close>, is in the list of missing fields that the turn
  stores as the awaited fields, and is named in the reply that asks for them.
\<close>

theorem empty_value_stays_missing:
  "missing_fields s =
     filter (\<lambda>f. get (collected_data s) f = None \<or> get (collected_data s) f = Some []) required_fields \<and>
   (user_input \<noteq> [] \<and> distinct (awaiting_fields s) \<and> i < length (awaiting_fields s) \<and>
    awaiting_fields s ! i \<in> set required_fields \<and>
    i < length (map strip (split_comma user_input)) \<and> map strip (split_comma user_input) ! i = [] \<longrightarrow>
      (\<exists>s'. on_user_input e user_input s = Some (Inr (), s') \<and>
            get (collected_data s') (awaiting_fields s ! i) = Some [] \<and>
            awaiting_fields s ! i \<in> set (awaiting_fields s') \<and>
            awaiting_fields s' = missing_fields s' \<and>
            replied (missing_prompt (awaiting_fields s')) s'))"
proof (intro conjI impI)
  show "missing_fields s =
     filter (\<lambda>f. get (collected_data s) f = None \<or> get (collected_data s) f = Some []) required_fields"
    by (rule missing_fields_filter)
next
  assume a: "user_input \<noteq> [] \<and> distinct (awaiting_fields s) \<and> i < length (awaiting_fields s) \<and>
    awaiting_fields s ! i \<in> set required_fields \<and>
    i < length (map strip (split_comma user_input)) \<and> map strip (split_comma user_input) ! i = []"
  let ?f = "awaiting_fields s ! i"
  let ?s1 = "s\<lparr>chat_history := chat_history s @ [\<lparr>role = ''user'', msg_text = user_input\<rparr>]\<rparr>"
  let ?s2 = "collect_values user_input ?s1"
  let ?s' = "?s2\<lparr>awaiting_fields := missing_fields ?s2,
                  chat_history := chat_history ?s2 @
                    [\<lparr>role = ''assistant'', msg_text = missing_prompt (missing_fields ?s2)\<rparr>]\<rparr>"
  from a have ne: "awaiting_fields ?s1 \<noteq> []" by auto
  from a collect_values_nth [of ?s1 i user_input]
  have g: "get (collected_data ?s2) ?f = Some []" by simp
  with a have m: "?f \<in> set (missing_fields ?s2)"
    by (simp add: missing_fields_filter)
  then have "missing_fields ?s2 \<noteq> []" by auto
  with a ne have "on_user_input e user_input s = Some (Inr (), ?s')"
    by (simp add: on_user_input_def Let_def)
  moreover have "missing_fields ?s' = missing_fields ?s2"
    by (simp add: missing_fields_def)
  ultimately show "\<exists>s'. on_user_input e user_input s = Some (Inr (), s') \<and>
            get (collected_data s') (awaiting_fields s ! i) = Some [] \<and>
            awaiting_fields s ! i \<in> set (awaiting_fields s') \<and>
            awaiting_fields s' = missing_fields s' \<and>
            replied (missing_prompt (awaiting_fields s')) s'"
    using g m by (simp add: replied_def)
qed

lemma example_collecting_aisle:
  "''a,,b'' \<noteq> [] \<and> distinct (awaiting_fields example_collecting) \<and>
   1 < length (awaiting_fields example_collecting) \<and>
   awaiting_fields example_collecting ! 1 \<in> set required_fields \<and>
   1 < length (map strip (split_comma ''a,,b'')) \<and> map strip (split_comma ''a,,b'') ! 1 = []"
  by code_simp

lemma example_collecting_blank:
  "''a,'' @ no_break_space @ '',b'' \<noteq> [] \<and> distinct (awaiting_fields example_collecting) \<and>
   1 < length (awaiting_fields example_collecting) \<and>
   awaiting_fields example_collecting ! 1 \<in> set required_fields \<and>
   1 < length (map strip (split_comma (''a,'' @ no_break_space @ '',b''))) \<and>
   map strip (split_comma (''a,'' @ no_break_space @ '',b'')) ! 1 = []"
  by code_simp

text \<open>The message ``a,,b'' for zone, aisle and site code, and the same message with a
  no-break space between the commas: the aisle is asked for again.\<close>

theorem empty_value_stays_missing_witness:
  "(\<exists>s'. on_user_input (example_env (\<lambda>t. None)) ''a,,b'' example_collecting = Some (Inr (), s') \<and>
        get (collected_data s') ''aisle'' = Some [] \<and> ''aisle'' \<in> set (awaiting_fields s') \<and>
        replied (missing_prompt (awaiting_fields s')) s') \<and>
   (\<exists>s'. on_user_input (example_env (\<lambda>t. None)) (''a,'' @ no_break_space @ '',b'') example_collecting =
          Some (Inr (), s') \<and>
        get (collected_data s') ''aisle'' = Some [] \<and> ''aisle'' \<in> set (awaiting_fields s') \<and>
        replied (missing_prompt (awaiting_fields s')) s')"
proof -
  have "awaiting_fields example_collecting ! 1 = ''aisle''"
    by (simp add: example_collecting_def initial_state_def)
  with empty_value_stays_missing
         [THEN conjunct2, rule_format, of "''a,,b''" example_collecting 1 "example_env (\<lambda>t. None)",
          OF example_collecting_aisle]
       empty_value_stays_missing
         [THEN conjunct2, rule_format, of "''a,'' @ no_break_space @ '',b''" example_collecting 1
            "example_env (\<lambda>t. None)", OF example_collecting_blank]
  show ?thesis by auto
qed

section \<open>Properties of the bulk import path\<close>

lemma succeeded_success [simp]: "succeeded (success_prefix @ x)" "\<not> failed (success_prefix @ x)"
  by (simp_all add: succeeded_def failed_def success_prefix_def failure_prefix_def
        check_mark_def cross_mark_def)

lemma failed_failure [simp]: "failed (failure_prefix @ x)" "\<not> succeeded (failure_prefix @ x)"
  by (simp_all add: succeeded_def failed_def success_prefix_def failure_prefix_def
        check_mark_def cross_mark_def)

lemma row_data_populated: "fully_populated (row_data loc_id row)"
  by (simp add: fully_populated_def row_data_def required_fields_def contains_def)

lemma snapshot_id: "get_default (snapshot r) ''location_id'' [] = location_id r"
  by (simp add: snapshot_def get_default_def)


lemma row_data_id: "get_default (row_data loc_id row) ''location_id'' [] = loc_id"
  by (simp add: row_data_def get_default_def)

lemma failed_text: "failed m \<Longrightarrow> \<exists>err. m = failure_prefix @ err"
proof -
  assume "failed m"
  then have "take (length failure_prefix) m = failure_prefix" by (simp add: failed_def)
  then have "m = failure_prefix @ drop (length failure_prefix) m"
    by (metis append_take_drop_id)
  then show ?thesis by blast
qed

lemma row_step:
  assumes g: "generate_location_id e s = Some (g, s1)"
  shows "\<exists>loc_id msg s2. g = Inr loc_id \<and> id_pattern loc_id \<and>
           save_to_mysql e (row_data loc_id row) s1 = (Inr msg, s2) \<and> shown s2 = shown s1 \<and>
           (if fault_free e s1 (s1\<lparr>tick := tick s1 + 8\<rparr>)
            then msg = success_prefix @ loc_id \<and>
                 created_locations s2 = created_locations s1 @
                   [snapshot (stored_location (row_data loc_id row) (now_at e (tick s1 + 2)))] \<and>
                 location_table s2 = location_table s1 @
                   [stored_location (row_data loc_id row) (now_at e (tick s1 + 2))]
            else (\<exists>err. msg = failure_prefix @ err) \<and>
                 created_locations s2 = created_locations s1 \<and>
                 (\<exists>committed. location_table s2 = location_table s1 @ committed)) \<and>
           after_save e (row_data loc_id row) s1 = display (St_success msg) s2 \<and>
           upload_rows e (row # rest) s = upload_rows e rest (display (St_success msg) s2)"
proof -
  from generate_location_id_returns [OF g] obtain loc_id where
    gi: "g = Inr loc_id" and pat: "id_pattern loc_id"
    by blast
  let ?data = "row_data loc_id row"
  have k: "fully_populated ?data" by (rule row_data_populated)
  show ?thesis
  proof (cases "fault_free e s1 (s1\<lparr>tick := tick s1 + 8\<rparr>)")
    case True
    let ?msg = "success_prefix @ loc_id"
    from save_to_mysql_ok [OF k True] obtain s2 where
      sv: "save_to_mysql e ?data s1 = (Inr ?msg, s2)"
      and sh: "shown s2 = shown s1"
      and cr: "created_locations s2 = created_locations s1 @
                 [snapshot (stored_location ?data (now_at e (tick s1 + 2)))]"
      and lt: "location_table s2 = location_table s1 @
                 [stored_location ?data (now_at e (tick s1 + 2))]"
      by (simp add: row_data_id shown_def)
    from sv have af: "after_save e ?data s1 = display (St_success ?msg) s2"
      by (simp add: after_save_def)
    from g gi sv have up: "upload_rows e (row # rest) s =
                             upload_rows e rest (display (St_success ?msg) s2)"
      by simp
    from gi pat sv sh cr lt af up True show ?thesis
      by (intro exI [of _ loc_id] exI [of _ ?msg] exI [of _ s2]) simp
  next
    case False
    from save_to_mysql_fault [OF k False] obtain err s2 where
      sv: "save_to_mysql e ?data s1 = (Inr (failure_prefix @ err), s2)"
      and f: "save_failed e ?data s1 (Inl (MySQLError err), s2)"
      by blast
    let ?msg = "failure_prefix @ err"
    from f have cr: "created_locations s2 = created_locations s1" and sh: "shown s2 = shown s1"
      and t: "location_table s2 = location_table s1 \<or>
              location_table s2 = location_table s1 @ [stored_location ?data (now_at e (tick s1 + 2))]"
      by (auto simp: save_failed_def shown_def)
    from t have lt: "\<exists>committed. location_table s2 = location_table s1 @ committed" by auto
    from sv have af: "after_save e ?data s1 = display (St_success ?msg) s2"
      by (simp add: after_save_def)
    from g gi sv have up: "upload_rows e (row # rest) s =
                             upload_rows e rest (display (St_success ?msg) s2)"
      by simp
    from gi pat sv sh cr lt af up False show ?thesis
      by (intro exI [of _ loc_id] exI [of _ ?msg] exI [of _ s2]) auto
  qed
qed

lemma rows_result:
  assumes "row_faults e rows s = Some fs"
  shows "\<exists>s' msgs new committed.
           upload_rows e rows s = Some (Inr (), s') \<and> shown s' = shown s @ msgs \<and>
           map failed msgs = fs \<and> map succeeded msgs = map Not fs \<and>
           created_locations s' = created_locations s @ new \<and>
           location_table s' = location_table s @ committed \<and>
           map (\<lambda>d. success_prefix @ get_default d ''location_id'' []) new = filter succeeded msgs \<and>
           (\<forall>d \<in> set new. \<exists>row \<in> set committed. d = snapshot row)"
  using assms
proof (induction rows arbitrary: s fs)
  case Nil
  then show ?case by simp
next
  case (Cons row rows)
  from Cons.prems obtain loc_id s1 fs' where
    g: "generate_location_id e s = Some (Inr loc_id, s1)"
    and rf: "row_faults e rows (after_save e (row_data loc_id row) s1) = Some fs'"
    and fs: "fs = (\<not> fault_free e s1 (s1\<lparr>tick := tick s1 + 8\<rparr>)) # fs'"
    by (auto split: option.splits sum.splits)
  from generate_location_id_frame [OF g]
  have fg: "created_locations s1 = created_locations s" "location_table s1 = location_table s"
    "shown s1 = shown s"
    by (simp_all add: nothing_persisted_def)
  from row_step [OF g, of row rows] obtain msg s2 where
    sh: "shown s2 = shown s1"
    and oc: "if fault_free e s1 (s1\<lparr>tick := tick s1 + 8\<rparr>)
            then msg = success_prefix @ loc_id \<and>
                 created_locations s2 = created_locations s1 @
                   [snapshot (stored_location (row_data loc_id row) (now_at e (tick s1 + 2)))] \<and>
                 location_table s2 = location_table s1 @
                   [stored_location (row_data loc_id row) (now_at e (tick s1 + 2))]
            else (\<exists>err. msg = failure_prefix @ err) \<and>
                 created_locations s2 = created_locations s1 \<and>
                 (\<exists>committed. location_table s2 = location_table s1 @ committed)"
    and af: "after_save e (row_data loc_id row) s1 = display (St_success msg) s2"
    and up: "upload_rows e (row # rows) s = upload_rows e rows (display (St_success msg) s2)"
    by auto
  let ?s3 = "display (St_success msg) s2"
  from Cons.IH [OF rf [unfolded af]] obtain s' msgs new' committed' where
    r: "upload_rows e rows ?s3 = Some (Inr (), s')" and sh': "shown s' = shown ?s3 @ msgs"
    and fl: "map failed msgs = fs'" and su: "map succeeded msgs = map Not fs'"
    and cr': "created_locations s' = created_locations ?s3 @ new'"
    and lt': "location_table s' = location_table ?s3 @ committed'"
    and mp': "map (\<lambda>d. success_prefix @ get_default d ''location_id'' []) new' = filter succeeded msgs"
    and sn': "\<forall>d \<in> set new'. \<exists>row \<in> set committed'. d = snapshot row"
    by blast
  have d: "shown ?s3 = shown s2 @ [msg]" "created_locations ?s3 = created_locations s2"
    "location_table ?s3 = location_table s2"
    by (simp_all add: display_def shown_def)
  obtain new committed where
    cr: "created_locations s2 = created_locations s1 @ new"
    and lt: "location_table s2 = location_table s1 @ committed"
    and mp: "map (\<lambda>d. success_prefix @ get_default d ''location_id'' []) new = filter succeeded [msg]"
    and sn: "\<forall>d \<in> set new. \<exists>row \<in> set committed. d = snapshot row"
    and fm: "failed msg = (\<not> fault_free e s1 (s1\<lparr>tick := tick s1 + 8\<rparr>))"
    and sm: "succeeded msg = fault_free e s1 (s1\<lparr>tick := tick s1 + 8\<rparr>)"
  proof (cases "fault_free e s1 (s1\<lparr>tick := tick s1 + 8\<rparr>)")
    case True
    let ?r = "stored_location (row_data loc_id row) (now_at e (tick s1 + 2))"
    have "location_id ?r = loc_id" by (simp add: stored_location_def row_data_id)
    with oc True that [of "[snapshot ?r]" "[?r]"] show ?thesis
      by (simp add: snapshot_id)
  next
    case False
    with oc obtain committed where "location_table s2 = location_table s1 @ committed" by auto
    with oc False that [of "[]" committed] show ?thesis by auto
  qed
  show ?case
  proof (intro exI [of _ s'] exI [of _ "msg # msgs"] exI [of _ "new @ new'"]
           exI [of _ "committed @ committed'"] conjI)
    show "upload_rows e (row # rows) s = Some (Inr (), s')" using up r by simp
    show "shown s' = shown s @ msg # msgs" using sh' d sh fg by simp
    show "map failed (msg # msgs) = fs" using fl fm fs by simp
    show "map succeeded (msg # msgs) = map Not fs" using su sm fs by simp
    show "created_locations s' = created_locations s @ new @ new'" using cr' d cr fg by simp
    show "location_table s' = location_table s @ committed @ committed'" using lt' d lt fg by simp
    show "map (\<lambda>d. success_prefix @ get_default d ''location_id'' []) (new @ new') =
            filter succeeded (msg # msgs)"
      using mp mp' by simp
    show "\<forall>d \<in> set (new @ new'). \<exists>row \<in> set (committed @ committed'). d = snapshot row"
      using sn sn' by auto
  qed
qed

lemma ended_rows:
  assumes "upload_rows e rows s = Some (r, s')"
  shows "r = Inr () \<and> row_faults e rows s \<noteq> None"
  using assms
proof (induction rows arbitrary: s)
  case Nil
  then show ?case by simp
next
  case (Cons row rows)
  from Cons.prems obtain g s1 where g: "generate_location_id e s = Some (g, s1)"
    by (auto split: option.splits)
  from row_step [OF g, of row rows] obtain loc_id msg s2 where
    gi: "g = Inr loc_id"
    and af: "after_save e (row_data loc_id row) s1 = display (St_success msg) s2"
    and up: "upload_rows e (row # rows) s = upload_rows e rows (display (St_success msg) s2)"
    by auto
  from Cons.prems up have "upload_rows e rows (display (St_success msg) s2) = Some (r, s')"
    by simp
  from Cons.IH [OF this] g gi af show ?case by auto
qed

text \<open>
  C6. The rows of an uploaded file are processed one after the other, each on its own.
  For a row whose identifier the generator has returned, the gateway returns a message
  and no exception: the success message with that identifier, a committed row and one
  new record in the export list when none of the database calls of this row raises, and
  otherwise a failure message and no new record; in both cases the loop goes on with the
  remaining rows exactly as a loop over them alone would, in the state the row has left
  after showing its message. So when the generator returns for every row, the loop ends
  without an exception, has shown one message for each row, a failure message exactly for
  the rows with a failing database call, and the export list has gained one record for
  each of the other rows, in their order, with the identifier of the message and taken
  from a committed row; and every loop that ends is of this kind. For three rows of which
  only the second has a failing database call, the messages are a success, a failure and
  a success message, and the export list gains exactly the two records of the first and
  the third row.
\<close>

theorem bulk_rows_independent:
  "(generate_location_id e s = Some (g, s1) \<longrightarrow>
      (\<exists>loc_id msg s2. g = Inr loc_id \<and> id_pattern loc_id \<and>
         save_to_mysql e (row_data loc_id row) s1 = (Inr msg, s2) \<and> shown s2 = shown s1 \<and>
         (if fault_free e s1 (s1\<lparr>tick := tick s1 + 8\<rparr>)
          then msg = success_prefix @ loc_id \<and>
               created_locations s2 = created_locations s1 @
                 [snapshot (stored_location (row_data loc_id row) (now_at e (tick s1 + 2)))] \<and>
               location_table s2 = location_table s1 @
                 [stored_location (row_data loc_id row) (now_at e (tick s1 + 2))]
          else (\<exists>err. msg = failure_prefix @ err) \<and>
               created_locations s2 = created_locations s1 \<and>
               (\<exists>committed. location_table s2 = location_table s1 @ committed)) \<and>
         after_save e (row_data loc_id row) s1 = display (St_success msg) s2 \<and>
         upload_rows e (row # rest) s = upload_rows e rest (display (St_success msg) s2))) \<and>
   (row_faults e rows s = Some fs \<longrightarrow>
      (\<exists>s' msgs new committed.
         upload_rows e rows s = Some (Inr (), s') \<and> shown s' = shown s @ msgs \<and>
         map failed msgs = fs \<and> map succeeded msgs = map Not fs \<and>
         created_locations s' = created_locations s @ new \<and>
         location_table s' = location_table s @ committed \<and>
         map (\<lambda>d. success_prefix @ get_default d ''location_id'' []) new = filter succeeded msgs \<and>
         (\<forall>d \<in> set new. \<exists>row \<in> set committed. d = snapshot row))) \<and>
   (upload_rows e rows s = Some (r, s') \<longrightarrow> r = Inr () \<and> row_faults e rows s \<noteq> None) \<and>
   (row_faults e [row1, row2, row3] s = Some [False, True, False] \<longrightarrow>
      (\<exists>s' id1 err id3 d1 d3.
         upload_rows e [row1, row2, row3] s = Some (Inr (), s') \<and>
         shown s' = shown s @ [success_prefix @ id1, failure_prefix @ err, success_prefix @ id3] \<and>
         created_locations s' = created_locations s @ [d1, d3] \<and>
         get_default d1 ''location_id'' [] = id1 \<and> get_default d3 ''location_id'' [] = id3))"
proof (intro conjI impI)
  assume "generate_location_id e s = Some (g, s1)"
  from row_step [OF this, of row rest]
  show "\<exists>loc_id msg s2. g = Inr loc_id \<and> id_pattern loc_id \<and>
         save_to_mysql e (row_data loc_id row) s1 = (Inr msg, s2) \<and> shown s2 = shown s1 \<and>
         (if fault_free e s1 (s1\<lparr>tick := tick s1 + 8\<rparr>)
          then msg = success_prefix @ loc_id \<and>
               created_locations s2 = created_locations s1 @
                 [snapshot (stored_location (row_data loc_id row) (now_at e (tick s1 + 2)))] \<and>
               location_table s2 = location_table s1 @
                 [stored_location (row_data loc_id row) (now_at e (tick s1 + 2))]
          else (\<exists>err. msg = failure_prefix @ err) \<and>
               created_locations s2 = created_locations s1 \<and>
               (\<exists>committed. location_table s2 = location_table s1 @ committed)) \<and>
         after_save e (row_data loc_id row) s1 = display (St_success msg) s2 \<and>
         upload_rows e (row # rest) s = upload_rows e rest (display (St_success msg) s2)" .
next
  assume "row_faults e rows s = Some fs"
  from rows_result [OF this]
  show "\<exists>s' msgs new committed.
         upload_rows e rows s = Some (Inr (), s') \<and> shown s' = shown s @ msgs \<and>
         map failed msgs = fs \<and> map succeeded msgs = map Not fs \<and>
         created_locations s' = created_locations s @ new \<and>
         location_table s' = location_table s @ committed \<and>
         map (\<lambda>d. success_prefix @ get_default d ''location_id'' []) new = filter succeeded msgs \<and>
         (\<forall>d \<in> set new. \<exists>row \<in> set committed. d = snapshot row)" .
next
  assume u: "upload_rows e rows s = Some (r, s')"
  from ended_rows [OF u] show "r = Inr ()" by simp
  from ended_rows [OF u] show "row_faults e rows s \<noteq> None" by simp
next
  assume "row_faults e [row1, row2, row3] s = Some [False, True, False]"
  from rows_result [OF this] obtain s' msgs new where
    u: "upload_rows e [row1, row2, row3] s = Some (Inr (), s')"
    and sh: "shown s' = shown s @ msgs"
    and fl: "map failed msgs = [False, True, False]"
    and su: "map succeeded msgs = map Not [False, True, False]"
    and cr: "created_locations s' = created_locations s @ new"
    and mp: "map (\<lambda>d. success_prefix @ get_default d ''location_id'' []) new = filter succeeded msgs"
    by (elim exE conjE) (rule that, assumption+)
  from fl obtain m1 m2 m3 where m: "msgs = [m1, m2, m3]" and f2: "failed m2"
    by (auto simp: map_eq_Cons_conv)
  from su m have s1: "succeeded m1" and s2: "\<not> succeeded m2" and s3: "succeeded m3"
    by simp_all
  from failed_text [OF f2] obtain err where e2: "m2 = failure_prefix @ err" by blast
  from mp m s1 s2 s3 obtain d1 d3 where n: "new = [d1, d3]"
    and i1: "m1 = success_prefix @ get_default d1 ''location_id'' []"
    and i3: "m3 = success_prefix @ get_default d3 ''location_id'' []"
    by (auto simp: map_eq_Cons_conv)
  from u sh cr m n e2 i1 i3
  show "\<exists>s' id1 err id3 d1 d3.
         upload_rows e [row1, row2, row3] s = Some (Inr (), s') \<and>
         shown s' = shown s @ [success_prefix @ id1, failure_prefix @ err, success_prefix @ id3] \<and>
         created_locations s' = created_locations s @ [d1, d3] \<and>
         get_default d1 ''location_id'' [] = id1 \<and> get_default d3 ''location_id'' [] = id3"
    by auto
qed

lemma example_upload:
  "map_option (\<lambda>(r, s'). (r, shown s', map (\<lambda>d. get_default d ''location_id'' []) (created_locations s')))
     (upload_rows (example_env (fault_once 35)) example_rows (initial_state [])) =
   Some (Inr (),
         [success_prefix @ ''AB234'', failure_prefix @ ''Lost connection to MySQL server'',
          success_prefix @ ''KL890''],
         [''AB234'', ''KL890''])"
  by code_simp

text \<open>Three rows; the commit of the second row loses its connection.\<close>

theorem bulk_rows_independent_witness:
  "row_faults (example_env (fault_once 35)) example_rows (initial_state []) =
     Some [False, True, False] \<and>
   (\<exists>s'. upload_rows (example_env (fault_once 35)) example_rows (initial_state []) =
          Some (Inr (), s') \<and>
        shown s' = [success_prefix @ ''AB234'', failure_prefix @ ''Lost connection to MySQL server'',
                    success_prefix @ ''KL890''] \<and>
        length (created_locations s') = 2)"
proof -
  from example_upload obtain s' where
    u: "upload_rows (example_env (fault_once 35)) example_rows (initial_state []) = Some (Inr (), s')"
    and sh: "shown s' = [success_prefix @ ''AB234'', failure_prefix @ ''Lost connection to MySQL server'',
                    success_prefix @ ''KL890'']"
    by auto
  from bulk_rows_independent [THEN conjunct2, THEN conjunct2, THEN conjunct1, rule_format, OF u]
  obtain fs where rf: "row_faults (example_env (fault_once 35)) example_rows (initial_state []) = Some fs"
    by auto
  from bulk_rows_independent [THEN conjunct2, THEN conjunct1, rule_format, OF rf] u
  obtain msgs where "shown s' = shown (initial_state []) @ msgs" and fl: "map failed msgs = fs"
    by auto
  with sh have "msgs = [success_prefix @ ''AB234'', failure_prefix @ ''Lost connection to MySQL server'',
                    success_prefix @ ''KL890'']"
    by (simp add: shown_def initial_state_def)
  with fl have fs: "fs = [False, True, False]" by auto
  from rf fs have rf3: "row_faults (example_env (fault_once 35))
      [example_rows ! 0, example_rows ! 1, example_rows ! 2] (initial_state []) =
      Some [False, True, False]"
    by (simp add: example_rows_def)
  from bulk_rows_independent [THEN conjunct2, THEN conjunct2, THEN conjunct2, rule_format, OF rf3] u
  obtain d1 d3 where "created_locations s' = created_locations (initial_state []) @ [d1, d3]"
    by (auto simp: example_rows_def)
  then have "length (created_locations s') = 2"
    by (simp add: initial_state_def)
  with rf fs u sh show ?thesis by blast
qed

end
